theory Spec2Isabelle
  imports Complex_Main "HOL-Library.Multiset"
begin


section \<open>Strings as Python uses them\<close>

text \<open>
  Messages and names are \<open>string\<close>s. \<open>lower\<close> is \<open>str.lower()\<close> on ASCII letters, and
  \<open>str_contains p s\<close> is the Python test \<open>p in s\<close> (a contiguous occurrence of \<open>p\<close>).
\<close>

definition ascii_uppercase :: string where
  "ascii_uppercase = ''ABCDEFGHIJKLMNOPQRSTUVWXYZ''"

definition ascii_lowercase :: string where
  "ascii_lowercase = ''abcdefghijklmnopqrstuvwxyz''"

definition lower_char :: "char \<Rightarrow> char" where
  "lower_char c = (case map_of (zip ascii_uppercase ascii_lowercase) c of
                     Some l \<Rightarrow> l | None \<Rightarrow> c)"

definition lower :: "string \<Rightarrow> string" where
  "lower s = map lower_char s"

fun str_startswith :: "string \<Rightarrow> string \<Rightarrow> bool" where
  "str_startswith s [] = True"
| "str_startswith [] (p # ps) = False"
| "str_startswith (c # s) (p # ps) = (c = p \<and> str_startswith s ps)"

fun str_contains :: "string \<Rightarrow> string \<Rightarrow> bool" where
  "str_contains p [] = (p = [])"
| "str_contains p (c # s) = (str_startswith (c # s) p \<or> str_contains p s)"

section \<open>utils/error_handler.py: the data model\<close>

datatype ErrorCategory =
    CONFIGURATION | SFTP_CONNECTION | SFTP_FILE_OPERATION | FILE_PROCESSING
  | DOCUMENT_PARSING | EMAIL_NOTIFICATION | DATABASE_OPERATION | SYSTEM_RESOURCE
  | VALIDATION | UNKNOWN

fun category_value :: "ErrorCategory \<Rightarrow> string" where
  "category_value CONFIGURATION = ''configuration''"
| "category_value SFTP_CONNECTION = ''sftp_connection''"
| "category_value SFTP_FILE_OPERATION = ''sftp_file_operation''"
| "category_value FILE_PROCESSING = ''file_processing''"
| "category_value DOCUMENT_PARSING = ''document_parsing''"
| "category_value EMAIL_NOTIFICATION = ''email_notification''"
| "category_value DATABASE_OPERATION = ''database_operation''"
| "category_value SYSTEM_RESOURCE = ''system_resource''"
| "category_value VALIDATION = ''validation''"
| "category_value UNKNOWN = ''unknown''"

datatype ErrorSeverity = CRITICAL | HIGH | MEDIUM | LOW

text \<open>
  A Python exception, as far as the error handler looks at it: \<open>type(e).__name__\<close>,
  \<open>str(e)\<close> and the traceback text. It stands for an instance of \<open>Exception\<close>, the
  class that every \<open>except\<close> clause of these modules catches.
\<close>

record py_exception =
  type_name :: string
  str_of :: string
  traceback :: string

text \<open>
  A \<open>datetime\<close> is a count of microseconds since \<open>datetime.min\<close> (an \<open>int\<close>), so \<open>timedelta(days=n)\<close> is
  \<open>n * 86400000000\<close>. A \<open>float\<close> is a \<open>real\<close>: the delays of the retry table are small
  dyadic numbers, on which the float operations of the source are exact.
\<close>

type_synonym datetime = int

definition timedelta_days :: "int \<Rightarrow> int" where
  "timedelta_days n = n * 86400000000"

record ErrorContext =
  timestamp :: datetime
  category :: ErrorCategory
  severity :: ErrorSeverity
  component :: string
  operation :: string
  error_message :: string
  exception_type :: string
  stack_trace :: string
  additional_data :: "(string \<times> string) list"
  retry_count :: int
  max_retries :: int
  is_recoverable :: bool

record RetryConfig =
  max_attempts :: int
  base_delay :: real
  max_delay :: real
  exponential_backoff :: bool
  jitter :: bool

text \<open>The dataclass defaults of \<open>RetryConfig\<close>, overridden by keyword as in the source.\<close>

definition RetryConfig_default :: RetryConfig where
  "RetryConfig_default =
     \<lparr>max_attempts = 3, base_delay = 1, max_delay = 60,
      exponential_backoff = True, jitter = True\<rparr>"

definition mk_RetryConfig :: "int \<Rightarrow> real \<Rightarrow> RetryConfig" where
  "mk_RetryConfig n b = RetryConfig_default\<lparr>max_attempts := n, base_delay := b\<rparr>"

text \<open>The dictionary \<open>self.retry_configs\<close> built by \<open>ErrorHandler.__init__\<close>.\<close>

fun retry_configs :: "ErrorCategory \<Rightarrow> RetryConfig option" where
  "retry_configs SFTP_CONNECTION = Some (mk_RetryConfig 5 2)"
| "retry_configs SFTP_FILE_OPERATION = Some (mk_RetryConfig 3 1)"
| "retry_configs EMAIL_NOTIFICATION = Some (mk_RetryConfig 3 2)"
| "retry_configs DATABASE_OPERATION = Some (mk_RetryConfig 3 (1/2))"
| "retry_configs FILE_PROCESSING = Some (mk_RetryConfig 2 1)"
| "retry_configs DOCUMENT_PARSING = Some (mk_RetryConfig 1 0)"
| "retry_configs CONFIGURATION = Some (mk_RetryConfig 1 0)"
| "retry_configs VALIDATION = Some (mk_RetryConfig 1 0)"
| "retry_configs SYSTEM_RESOURCE = None"
| "retry_configs UNKNOWN = None"

text \<open>\<open>self.retry_configs.get(category, RetryConfig())\<close>\<close>

definition retry_config_for :: "ErrorCategory \<Rightarrow> RetryConfig" where
  "retry_config_for c = (case retry_configs c of Some cfg \<Rightarrow> cfg | None \<Rightarrow> RetryConfig_default)"

text \<open>
  A line of the persistent store \<open>error_context.jsonl\<close>, by what the cleanup's loop does
  with it: a JSON object with a timestamp that parses, as \<open>_store_error_context\<close> writes
  them; a line on which \<open>json.loads\<close>, the \<open>'timestamp'\<close> key or \<open>datetime.fromisoformat\<close>
  fails with \<open>JSONDecodeError\<close>, \<open>KeyError\<close> or \<open>ValueError\<close>, which the loop catches; and a
  line on which they or the comparison with the cutoff fail with another error (a
  \<open>TypeError\<close>: the JSON value is no object, or its timestamp no naive ISO string), which
  the loop does not catch.
\<close>

datatype log_line = Json_line ErrorContext | Malformed_line string | Faulty_line string

text \<open>
  The state of an \<open>ErrorHandler\<close>: its history and counters, and the two files it
  touches (\<open>None\<close>: the file does not exist).
\<close>

record ErrorHandler =
  error_history :: "ErrorContext list"
  error_counts :: "string \<rightharpoonup> nat"
  last_error_times :: "string \<rightharpoonup> datetime"
  error_log_file :: "log_line list option"
  temp_file :: "log_line list option"
  error_log_retention_days :: int

section \<open>utils/error_handler.py: classification\<close>

definition non_recoverable_types :: "string list" where
  "non_recoverable_types =
     [''FileNotFoundError'', ''PermissionError'', ''AuthenticationError'',
      ''SMTPAuthenticationError'', ''SMTPRecipientsRefused'', ''ValueError'',
      ''TypeError'', ''AttributeError'']"

definition non_recoverable_patterns :: "string list" where
  "non_recoverable_patterns =
     [''authentication failed'', ''invalid credentials'', ''permission denied'',
      ''file not found'', ''invalid format'', ''malformed'', ''corrupt'']"

text \<open>The loop \<open>for pattern in ...: if pattern in error_message: return False\<close>, then \<open>return True\<close>.\<close>

fun no_pattern_matches :: "string list \<Rightarrow> string \<Rightarrow> bool" where
  "no_pattern_matches [] msg = True"
| "no_pattern_matches (pattern # rest) msg =
     (if str_contains pattern msg then False else no_pattern_matches rest msg)"

definition is_recoverable_error :: "py_exception \<Rightarrow> ErrorCategory \<Rightarrow> bool" where
  "is_recoverable_error error cat =
     (if cat \<in> set [CONFIGURATION, VALIDATION] then False
      else if type_name error \<in> set non_recoverable_types then False
      else no_pattern_matches non_recoverable_patterns (lower (str_of error)))"

definition determine_error_severity :: "py_exception \<Rightarrow> ErrorCategory \<Rightarrow> ErrorSeverity" where
  "determine_error_severity error cat =
     (let error_type = type_name error; msg = lower (str_of error) in
      if cat = CONFIGURATION then CRITICAL
      else if error_type \<in> set [''SystemExit'', ''KeyboardInterrupt'', ''MemoryError''] then CRITICAL
      else if cat \<in> set [SFTP_CONNECTION, DATABASE_OPERATION] then HIGH
      else if str_contains ''authentication'' msg \<or> str_contains ''permission'' msg then HIGH
      else if cat \<in> set [FILE_PROCESSING, EMAIL_NOTIFICATION] then MEDIUM
      else if cat \<in> set [DOCUMENT_PARSING, VALIDATION] then LOW
      else MEDIUM)"

text \<open>
  \<open>_calculate_retry_delay\<close>; \<open>r\<close> is the draw \<open>random.random()\<close>, which the source makes
  only when the policy has jitter. The arithmetic is exact here, which is all the loop
  below depends on; the rounding of the floats is written out in
  \<open>calculate_retry_delay_float\<close> further down, which gives the same delay on every attempt
  of the loop.
\<close>

definition calculate_retry_delay :: "nat \<Rightarrow> RetryConfig \<Rightarrow> real \<Rightarrow> real" where
  "calculate_retry_delay attempt config r =
     (let delay = (if exponential_backoff config
                   then min (base_delay config * 2 ^ attempt) (max_delay config)
                   else base_delay config)
      in if jitter config then delay * (1/2 + r * (1/2)) else delay)"

section \<open>utils/error_handler.py: handle_error\<close>

text \<open>\<open>_track_error_statistics\<close>: the counter and the last time of the key \<open>category:component:operation\<close>.\<close>

definition error_key :: "ErrorContext \<Rightarrow> string" where
  "error_key context = category_value (category context) @ '':'' @ component context @ '':'' @ operation context"

definition track_error_statistics :: "ErrorContext \<Rightarrow> ErrorHandler \<Rightarrow> ErrorHandler" where
  "track_error_statistics context h =
     (let k = error_key context;
          n = (case error_counts h k of Some c \<Rightarrow> c | None \<Rightarrow> 0) + 1
      in h\<lparr>error_counts := (error_counts h)(k \<mapsto> n),
            last_error_times := (last_error_times h)(k \<mapsto> timestamp context)\<rparr>)"

text \<open>
  \<open>_store_error_context\<close> appends one JSON line (every field but the stack trace) to the
  store; opening with mode \<open>'a'\<close> creates a missing file.
\<close>

definition store_error_context :: "ErrorContext \<Rightarrow> ErrorHandler \<Rightarrow> ErrorHandler" where
  "store_error_context context h =
     h\<lparr>error_log_file :=
          Some ((case error_log_file h of Some ls \<Rightarrow> ls | None \<Rightarrow> [])
                @ [Json_line (context\<lparr>stack_trace := []\<rparr>)])\<rparr>"

text \<open>
  \<open>handle_error\<close>; \<open>now\<close> is the \<open>datetime.now()\<close> of the context's default timestamp.
  Logging has no effect on the state and is left out.
\<close>

definition handle_error ::
  "datetime \<Rightarrow> py_exception \<Rightarrow> ErrorCategory \<Rightarrow> ErrorSeverity \<Rightarrow> string \<Rightarrow> string \<Rightarrow>
   (string \<times> string) list \<Rightarrow> int \<Rightarrow> int \<Rightarrow> ErrorHandler \<Rightarrow> ErrorContext \<times> ErrorHandler" where
  "handle_error now error cat sev cmpt opn data retry_cnt max_retr h =
     (let context =
            \<lparr>timestamp = now, category = cat, severity = sev, component = cmpt,
             operation = opn, error_message = str_of error,
             exception_type = type_name error, stack_trace = traceback error,
             additional_data = data, retry_count = retry_cnt, max_retries = max_retr,
             is_recoverable = is_recoverable_error error cat\<rparr>;
          h1 = track_error_statistics context h;
          h2 = store_error_context context h1;
          hist = error_history h2 @ [context];
          hist' = (if length hist > 1000 then tl hist else hist)
      in (context, h2\<lparr>error_history := hist'\<rparr>))"

section \<open>utils/error_handler.py: execute_with_retry\<close>

text \<open>
  What a run of \<open>execute_with_retry\<close> does, in order: \<open>Sleep d\<close> is a completed
  \<open>time.sleep(d)\<close>, \<open>Invoke k\<close> the call \<open>operation()\<close> of attempt \<open>k\<close> (counted from 0),
  \<open>Handled c\<close> the \<open>ErrorContext\<close> that \<open>handle_error\<close> created.
\<close>

datatype event = Sleep real | Invoke nat | Handled ErrorContext

text \<open>\<open>time.sleep\<close> raises this on a negative argument.\<close>

definition sleep_ValueError :: py_exception where
  "sleep_ValueError =
     \<lparr>type_name = ''ValueError'', str_of = ''sleep length must be non-negative'', traceback = []\<rparr>"

text \<open>
  The body of the \<open>try\<close> for one attempt. The wrapped operation is a callable with
  effects: \<open>oper k\<close> is what its call in attempt \<open>k\<close> does (\<open>Inl\<close>: it raises),
  \<open>rnd k\<close> the random draw of that attempt.
\<close>

definition try_body ::
  "(nat \<Rightarrow> py_exception + 'r) \<Rightarrow> (nat \<Rightarrow> real) \<Rightarrow> RetryConfig \<Rightarrow> nat \<Rightarrow>
   (py_exception + 'r) \<times> event list" where
  "try_body oper rnd cfg attempt =
     (if attempt > 0 then
        (let delay = calculate_retry_delay attempt cfg (rnd attempt) in
         if delay < 0 then (Inl sleep_ValueError, [])
         else (oper attempt, [Sleep delay, Invoke attempt]))
      else (oper attempt, [Invoke attempt]))"

text \<open>
  The loop \<open>for attempt in range(retry_config.max_attempts)\<close> over the attempts still to
  run, and the code after it. The result is \<open>Inl e\<close> when \<open>e\<close> is raised, \<open>Inr (Some v)\<close>
  when \<open>v\<close> is returned, \<open>Inr None\<close> when the function falls off its end.
\<close>

fun retry_loop ::
  "(nat \<Rightarrow> py_exception + 'r) \<Rightarrow> (nat \<Rightarrow> real) \<Rightarrow> (nat \<Rightarrow> datetime) \<Rightarrow> RetryConfig \<Rightarrow>
   ErrorCategory \<Rightarrow> string \<Rightarrow> string \<Rightarrow> (string \<times> string) list \<Rightarrow>
   nat list \<Rightarrow> py_exception option \<Rightarrow> ErrorHandler \<Rightarrow>
   (py_exception + 'r option) \<times> ErrorHandler \<times> event list" where
  "retry_loop oper rnd clock cfg cat cmpt opname data [] last_error h =
     ((case last_error of Some e \<Rightarrow> Inl e | None \<Rightarrow> Inr None), h, [])"
| "retry_loop oper rnd clock cfg cat cmpt opname data (attempt # rest) last_error h =
     (case try_body oper rnd cfg attempt of
        (Inr result, evs) \<Rightarrow> (Inr (Some result), h, evs)
      | (Inl e, evs) \<Rightarrow>
          (let sev = (if int attempt = max_attempts cfg - 1
                      then determine_error_severity e cat else LOW);
               (context, h') = handle_error (clock attempt) e cat sev cmpt opname data
                                 (int attempt) (max_attempts cfg - 1) h
           in if \<not> is_recoverable context
              then (Inl e, h', evs @ [Handled context])
              else (case retry_loop oper rnd clock cfg cat cmpt opname data rest (Some e) h' of
                      (out, h'', tr) \<Rightarrow> (out, h'', evs @ Handled context # tr))))"

definition execute_with_retry ::
  "(nat \<Rightarrow> py_exception + 'r) \<Rightarrow> (nat \<Rightarrow> real) \<Rightarrow> (nat \<Rightarrow> datetime) \<Rightarrow>
   ErrorCategory \<Rightarrow> string \<Rightarrow> string \<Rightarrow> (string \<times> string) list \<Rightarrow> ErrorHandler \<Rightarrow>
   (py_exception + 'r option) \<times> ErrorHandler \<times> event list" where
  "execute_with_retry oper rnd clock cat cmpt opname data h =
     (let retry_config = retry_config_for cat
      in retry_loop oper rnd clock retry_config cat cmpt opname data
           [0..<nat (max_attempts retry_config)] None h)"

text \<open>Reading a run: its result, its trace, and the invocations, sleeps and records of a trace.\<close>

definition retry_outcome :: "'a \<times> 'b \<times> 'c \<Rightarrow> 'a" where
  "retry_outcome run = fst run"

definition retry_trace :: "'a \<times> 'b \<times> 'c \<Rightarrow> 'c" where
  "retry_trace run = snd (snd run)"

fun invocations :: "event list \<Rightarrow> nat list" where
  "invocations [] = []"
| "invocations (Invoke k # es) = k # invocations es"
| "invocations (e # es) = invocations es"

fun sleeps :: "event list \<Rightarrow> real list" where
  "sleeps [] = []"
| "sleeps (Sleep d # es) = d # sleeps es"
| "sleeps (e # es) = sleeps es"

fun records :: "event list \<Rightarrow> ErrorContext list" where
  "records [] = []"
| "records (Handled c # es) = c # records es"
| "records (e # es) = records es"

text \<open>
  \<open>sleeps_only_before_retries tr\<close>: every sleep of the run is directly followed by the
  invocation of an attempt after the first; so no sleep ends the run or follows its
  last invocation.
\<close>

fun sleeps_only_before_retries :: "event list \<Rightarrow> bool" where
  "sleeps_only_before_retries [] = True"
| "sleeps_only_before_retries (Sleep d # Invoke k # es) = (0 < k \<and> sleeps_only_before_retries es)"
| "sleeps_only_before_retries (Sleep d # es) = False"
| "sleeps_only_before_retries (e # es) = sleeps_only_before_retries es"

section \<open>utils/error_handler.py: cleanup_old_error_logs\<close>










section \<open>utils/error_handler.py: \<open>_calculate_retry_delay\<close> in floating point\<close>

text \<open>
  A Python \<open>float\<close> is an IEEE 754 binary64 number: a finite one is a real \<open>M * 2\<^sup>e\<close> with
  \<open>\<bar>M\<bar> < 2\<^sup>5\<^sup>3\<close> and \<open>-1074 \<le> e \<le> 971\<close>. The two zeros are not told apart.
\<close>

datatype pyfloat = Finite real | Pos_inf | Neg_inf | NaN

text \<open>Rounding to the nearest integer, a tie going to the even one.\<close>

definition round_half_even :: "real \<Rightarrow> int" where
  "round_half_even x =
     (let n = \<lfloor>x\<rfloor>; d = x - of_int n
      in if d < 1/2 then n else if 1/2 < d then n + 1 else if even n then n else n + 1)"

text \<open>
  The exponent of the last bit of the floats around \<open>x\<close> (52 below the exponent of \<open>x\<close>,
  and at least -1074, where the subnormal numbers are), and the float nearest to \<open>x\<close>,
  the exponent not yet bounded above.
\<close>

definition float_exponent :: "real \<Rightarrow> int" where
  "float_exponent x = max \<lfloor>log 2 \<bar>x\<bar>\<rfloor> (- 1022) - 52"

definition fl :: "real \<Rightarrow> real" where
  "fl x = (if x = 0 then 0
           else of_int (round_half_even (x / 2 powi float_exponent x)) * 2 powi float_exponent x)"

text \<open>
  The largest float, and the result of an arithmetic operation whose exact value is \<open>x\<close>:
  a rounded value beyond the largest float is an infinity.
\<close>

definition float_max :: real where
  "float_max = (2 ^ 53 - 1) * 2 ^ 971"

definition float_of :: "real \<Rightarrow> pyfloat" where
  "float_of x = (let y = fl x
                 in if float_max < y then Pos_inf else if y < - float_max then Neg_inf
                    else Finite y)"

text \<open>The operations \<open>*\<close>, \<open>+\<close> and \<open><\<close> of floats, and \<open>min\<close> of two arguments.\<close>

fun float_sign :: "pyfloat \<Rightarrow> int option" where
  "float_sign (Finite x) = Some (if x < 0 then - 1 else if x = 0 then 0 else 1)"
| "float_sign Pos_inf = Some 1"
| "float_sign Neg_inf = Some (- 1)"
| "float_sign NaN = None"

fun py_mul :: "pyfloat \<Rightarrow> pyfloat \<Rightarrow> pyfloat" where
  "py_mul (Finite x) (Finite y) = float_of (x * y)"
| "py_mul a b =
     (case (float_sign a, float_sign b) of
        (Some s, Some t) \<Rightarrow> if s * t = 0 then NaN else if 0 < s * t then Pos_inf else Neg_inf
      | _ \<Rightarrow> NaN)"

fun py_add :: "pyfloat \<Rightarrow> pyfloat \<Rightarrow> pyfloat" where
  "py_add (Finite x) (Finite y) = float_of (x + y)"
| "py_add NaN b = NaN"
| "py_add a NaN = NaN"
| "py_add Pos_inf Neg_inf = NaN"
| "py_add Neg_inf Pos_inf = NaN"
| "py_add (Finite x) b = b"
| "py_add a b = a"

fun py_less :: "pyfloat \<Rightarrow> pyfloat \<Rightarrow> bool" where
  "py_less (Finite x) (Finite y) = (x < y)"
| "py_less NaN b = False"
| "py_less a NaN = False"
| "py_less Neg_inf b = (b \<noteq> Neg_inf)"
| "py_less a Pos_inf = (a \<noteq> Pos_inf)"
| "py_less a b = False"

text \<open>\<open>min(a, b)\<close> keeps its first argument unless the second is less.\<close>

definition py_min :: "pyfloat \<Rightarrow> pyfloat \<Rightarrow> pyfloat" where
  "py_min a b = (if py_less b a then b else a)"

text \<open>
  The delay before jitter. \<open>2 ** attempt\<close> is an exact \<open>int\<close>; the product with the float
  \<open>base_delay\<close> converts it to a float, which raises \<open>OverflowError\<close> from \<open>2\<^sup>1\<^sup>0\<^sup>2\<^sup>4\<close> on.
  The fields of the policy are finite floats.
\<close>

definition OverflowError :: py_exception where
  "OverflowError = \<lparr>type_name = ''OverflowError'',
                     str_of = ''int too large to convert to float'', traceback = []\<rparr>"

definition backoff_delay :: "nat \<Rightarrow> RetryConfig \<Rightarrow> py_exception + pyfloat" where
  "backoff_delay attempt cfg =
     (if exponential_backoff cfg then
        (if 1024 \<le> attempt then Inl OverflowError
         else Inr (py_min (float_of (base_delay cfg * 2 ^ attempt))
                          (Finite (max_delay cfg))))
      else Inr (Finite (base_delay cfg)))"

text \<open>
  The factor \<open>0.5 + random.random() * 0.5\<close>, \<open>r\<close> being the float that \<open>random.random()\<close>
  returns (53 random bits \<open>n\<close>, as \<open>n / 2\<^sup>5\<^sup>3\<close>), and \<open>_calculate_retry_delay\<close>.
\<close>

definition jitter_factor :: "real \<Rightarrow> pyfloat" where
  "jitter_factor r = py_add (Finite (1/2)) (py_mul (Finite r) (Finite (1/2)))"

definition calculate_retry_delay_float :: "nat \<Rightarrow> RetryConfig \<Rightarrow> real \<Rightarrow> py_exception + pyfloat" where
  "calculate_retry_delay_float attempt cfg r =
     (case backoff_delay attempt cfg of
        Inl e \<Rightarrow> Inl e
      | Inr delay \<Rightarrow> Inr (if jitter cfg then py_mul delay (jitter_factor r) else delay))"

section \<open>scheduler/job_scheduler.py\<close>

record ScheduleConfig =
  poll_interval_seconds :: int
  poll_cron :: "string option"
  timezone :: string

text \<open>
  The libraries the scheduler calls, as it sees them: \<open>croniter_next expr start\<close> is
  \<open>croniter(expr, start).get_next(datetime)\<close>, \<open>pytz_timezone name\<close> is \<open>pytz.timezone(name)\<close>
  (a zone is its offset), both raising on bad input, and \<open>utc_now\<close> is the clock.
\<close>

record sched_env =
  croniter_next :: "string \<Rightarrow> datetime \<Rightarrow> py_exception + datetime"
  pytz_timezone :: "string \<Rightarrow> py_exception + int"
  utc_now :: datetime

text \<open>The test \<open>if self.config.poll_cron:\<close>, false for \<open>None\<close> and for the empty string.\<close>

definition cron_mode :: "ScheduleConfig \<Rightarrow> bool" where
  "cron_mode cfg = (case poll_cron cfg of None \<Rightarrow> False | Some expr \<Rightarrow> expr \<noteq> [])"

definition cron_expr :: "ScheduleConfig \<Rightarrow> string" where
  "cron_expr cfg = (case poll_cron cfg of None \<Rightarrow> [] | Some expr \<Rightarrow> expr)"

definition ValueError :: "string \<Rightarrow> py_exception" where
  "ValueError msg = \<lparr>type_name = ''ValueError'', str_of = msg, traceback = []\<rparr>"

text \<open>
  \<open>_validate_config\<close>: \<open>Some e\<close> when it raises \<open>e\<close>. The message for a bad interval
  ends with the interval in the source; the number is left out here.
\<close>

definition validate_config :: "sched_env \<Rightarrow> ScheduleConfig \<Rightarrow> py_exception option" where
  "validate_config env cfg =
     (if cron_mode cfg then
        (case croniter_next env (cron_expr cfg) (utc_now env) of
           Inl e \<Rightarrow>
             if type_name e \<in> set [''ValueError'', ''TypeError'']
             then Some (ValueError (''Invalid cron expression '' @ [CHR 0x27] @ cron_expr cfg
                                     @ [CHR 0x27] @ '': '' @ str_of e))
             else Some e
         | Inr t \<Rightarrow>
             (case pytz_timezone env (timezone cfg) of
                Inl e \<Rightarrow>
                  if type_name e = ''UnknownTimeZoneError''
                  then Some (ValueError (''Invalid timezone '' @ [CHR 0x27] @ timezone cfg
                                          @ [CHR 0x27] @ '': '' @ str_of e))
                  else Some e
              | Inr tz \<Rightarrow> None))
      else if poll_interval_seconds cfg \<le> 0
           then Some (ValueError ''Poll interval must be positive'')
           else None)"

text \<open>The state of a \<open>Scheduler\<close>: \<open>thread\<close> says whether \<open>self._thread\<close> is set.\<close>

record Scheduler =
  config :: ScheduleConfig
  running :: bool
  thread :: bool
  stop_event :: bool

definition Scheduler_init :: "sched_env \<Rightarrow> ScheduleConfig \<Rightarrow> py_exception + Scheduler" where
  "Scheduler_init env cfg =
     (case validate_config env cfg of
        Some e \<Rightarrow> Inl e
      | None \<Rightarrow> Inr \<lparr>config = cfg, running = False, thread = False, stop_event = False\<rparr>)"

definition start :: "Scheduler \<Rightarrow> Scheduler" where
  "start s = (if running s then s
              else s\<lparr>running := True, stop_event := False, thread := True\<rparr>)"

definition stop :: "Scheduler \<Rightarrow> Scheduler" where
  "stop s = (if \<not> running s then s
             else s\<lparr>running := False, stop_event := True, thread := False\<rparr>)"

datatype sched_call = Start | Stop

fun sched_step :: "sched_call \<Rightarrow> Scheduler \<Rightarrow> Scheduler" where
  "sched_step Start s = start s"
| "sched_step Stop s = stop s"

text \<open>\<open>get_next_run_time\<close>; its \<open>except Exception\<close> turns every failure into \<open>None\<close>.\<close>

definition get_next_run_time :: "sched_env \<Rightarrow> Scheduler \<Rightarrow> datetime option" where
  "get_next_run_time env s =
     (if cron_mode (config s) then
        (case pytz_timezone env (timezone (config s)) of
           Inl e \<Rightarrow> None
         | Inr tz \<Rightarrow>
             (case croniter_next env (cron_expr (config s)) (utc_now env + tz) of
                Inl e \<Rightarrow> None
              | Inr t \<Rightarrow> Some t))
      else None)"

section \<open>utils/parallel_action_executor.py\<close>

record ActionResult =
  action_name :: string
  success :: bool
  duration :: real
  action_error_message :: "string option"

text \<open>
  A callable is what its call does: given the state \<open>'w\<close> of the objects it closes over
  at the moment it runs, it raises or returns (\<open>Some e\<close>: it raises \<open>e\<close>), takes some
  time, and makes calls \<open>'e\<close> to its collaborators. An action is the dictionary with the
  keys \<open>'name'\<close> and \<open>'function'\<close>, either of which may be absent.
\<close>

type_synonym ('w, 'e) callable = "'w \<Rightarrow> py_exception option \<times> real \<times> 'e list"

record ('w, 'e) action =
  name :: "string option"
  func :: "('w, 'e) callable option"

text \<open>
  What a batch does, in order: \<open>Submit n\<close> is \<open>executor.submit\<close> for the action \<open>n\<close>,
  \<open>Effect n c\<close> a call \<open>c\<close> made by the action \<open>n\<close> while it runs, \<open>Report\<close> the call of
  \<open>handle_error\<close> with its category, severity, component, operation and error, and
  \<open>Collect n\<close> the moment \<open>future.result()\<close> of the action \<open>n\<close> is appended to the results.
\<close>

datatype 'e pevent =
    Submit string
  | Effect string 'e
  | Report ErrorCategory ErrorSeverity string string py_exception
  | Collect string

text \<open>\<open>_execute_action\<close>: the result and the events of one action run by a worker.\<close>

definition execute_action ::
  "string \<Rightarrow> ('w, 'e) callable \<Rightarrow> 'w \<Rightarrow> ActionResult \<times> 'e pevent list" where
  "execute_action nm action_func w =
     (case action_func w of
        (None, dt, calls) \<Rightarrow>
          (\<lparr>action_name = nm, success = True, duration = dt, action_error_message = None\<rparr>,
           map (Effect nm) calls)
      | (Some e, dt, calls) \<Rightarrow>
          (\<lparr>action_name = nm, success = False, duration = dt,
            action_error_message = Some (str_of e)\<rparr>,
           map (Effect nm) calls
             @ [Report SYSTEM_RESOURCE MEDIUM ''ParallelActionExecutor'' (''execute_'' @ nm) e]))"

text \<open>
  The order in which the futures complete is not decided by the program: \<open>as_completed\<close>
  yields them as the workers finish. The schedule \<open>ks\<close> decides it here, each number
  picking one of the futures still running; every order is the pick of some schedule.
\<close>

function pick_order :: "nat list \<Rightarrow> 'a list \<Rightarrow> 'a list" where
  "pick_order ks [] = []"
| "pick_order [] (x # xs) = x # xs"
| "pick_order (k # ks) (x # xs) =
     (let i = k mod length (x # xs)
      in (x # xs) ! i # pick_order ks (take i (x # xs) @ drop (Suc i) (x # xs)))"
  by pat_completeness auto
termination
  by (relation "measure (\<lambda>(ks, xs). length xs)") auto

text \<open>\<open>action.get('name', 'unknown')\<close>\<close>

definition name_of :: "('w, 'e) action \<Rightarrow> string" where
  "name_of a = (case name a of Some n \<Rightarrow> n | None \<Rightarrow> ''unknown'')"

text \<open>
  The first loop of \<open>execute_parallel\<close>: an action with no function gets its failed
  result at once, the others are submitted. It returns those results, the submitted
  futures and the events.
\<close>

fun submit_all ::
  "('w, 'e) action list \<Rightarrow> ActionResult list \<times> (string \<times> ('w, 'e) callable) list \<times> 'e pevent list" where
  "submit_all [] = ([], [], [])"
| "submit_all (a # rest) =
     (case submit_all rest of (results, futures, evs) \<Rightarrow>
        (case func a of
           None \<Rightarrow>
             (\<lparr>action_name = name_of a, success = False, duration = 0,
               action_error_message = Some ''No function provided''\<rparr> # results, futures, evs)
         | Some f \<Rightarrow> (results, (name_of a, f) # futures, Submit (name_of a) # evs)))"

text \<open>The second loop: the futures in the order they complete.\<close>

fun collect_all ::
  "'w \<Rightarrow> (string \<times> ('w, 'e) callable) list \<Rightarrow> ActionResult list \<times> 'e pevent list" where
  "collect_all w [] = ([], [])"
| "collect_all w ((nm, f) # rest) =
     (case execute_action nm f w of (result, evs) \<Rightarrow>
        (case collect_all w rest of (results, evs') \<Rightarrow>
           (result # results, evs @ Collect nm # evs')))"

text \<open>
  \<open>execute_parallel\<close> of an executor with \<open>max_workers\<close> workers. The thread pool refuses
  a worker count below 1 with a \<open>ValueError\<close>, which the method lets through.
\<close>

definition execute_parallel ::
  "int \<Rightarrow> 'w \<Rightarrow> nat list \<Rightarrow> ('w, 'e) action list \<Rightarrow>
   py_exception + ActionResult list \<times> 'e pevent list" where
  "execute_parallel max_workers w schedule actions =
     (if actions = [] then Inr ([], [])
      else if max_workers \<le> 0 then Inl (ValueError ''max_workers must be greater than 0'')
      else
        (case submit_all actions of (results, futures, evs) \<Rightarrow>
           (case collect_all w (pick_order schedule futures) of (results', evs') \<Rightarrow>
              Inr (results @ results', evs @ evs'))))"









section \<open>controller/main_controller.py: the data model\<close>

record FileInfo =
  filename :: string
  full_path :: string
  file_size :: int
  mtime :: datetime
  is_directory :: bool

record DownloadResult =
  type_folder :: string
  download_filename :: string
  download_size :: int
  download_success :: bool
  download_error_message :: "string option"

text \<open>\<open>ProcessingStats\<close>; the two times are datetimes here, ISO strings in the source.\<close>

record ProcessingStats =
  date_folder :: string
  start_time :: datetime
  end_time :: datetime
  type_folders_scanned :: "(string \<times> nat) list"
  files_downloaded :: "DownloadResult list"
  documents_processed :: nat
  records_extracted :: nat
  csv_filename :: string
  csv_size :: nat
  upload_status :: string
  log_filename :: string
  email_sent :: bool
  errors :: "string list"

text \<open>The calls that the three actions make to their collaborators, with their arguments.\<close>

datatype call =
    Upload_file string
  | Create_log string ProcessingStats
  | Send_notification ProcessingStats


text \<open>
  The collaborators of one cycle and what they answer (\<open>Inl\<close> or \<open>Some\<close>: they raise): the
  date folder manager (a date folder is known by its name), the FTPS scan of the type
  folders, the download and the document phase of the controller, the file system
  (\<open>getsize\<close>, and \<open>log_files\<close>, what \<open>glob("processing_log_*.txt")\<close> lists in the date
  folder once the first wave is over), the SFTP upload, the log creator and the
  notifier with the time each takes, the clock, and the order in which the actions of
  each wave complete.
\<close>

record cycle_env =
  create_date_folder :: "py_exception + string"
  ftps_scan :: "py_exception + (string \<times> FileInfo list) list"
  download_files :: "(string \<times> FileInfo list) list \<Rightarrow> string \<Rightarrow> py_exception + DownloadResult list"
  process_documents :: "string \<Rightarrow> py_exception + string list \<times> string"
  getsize :: "string \<Rightarrow> nat"
  log_files :: "string list"
  upload_file :: "string \<Rightarrow> py_exception option \<times> real"
  create_log :: "string \<Rightarrow> ProcessingStats \<Rightarrow> py_exception option \<times> real"
  send_webscribe_notification :: "ProcessingStats \<Rightarrow> py_exception option \<times> real"
  now_start :: datetime
  now_built :: datetime
  now_end :: datetime
  wave1_order :: "nat list"
  wave2_order :: "nat list"

section \<open>controller/main_controller.py: the publish phase\<close>

text \<open>
  The three actions of \<open>ParallelActionExecutor\<close>. Each is called by a \<open>lambda\<close> that
  closes over the one \<open>stats\<close> object, so it sees the fields that object has when the
  action runs: the argument of the callable.
\<close>

definition upload_csv_action :: "cycle_env \<Rightarrow> string \<Rightarrow> (ProcessingStats, call) callable" where
  "upload_csv_action env csv_path =
     (\<lambda>stats. case upload_file env csv_path of (r, dt) \<Rightarrow> (r, dt, [Upload_file csv_path]))"

definition create_log_action :: "cycle_env \<Rightarrow> string \<Rightarrow> (ProcessingStats, call) callable" where
  "create_log_action env folder =
     (\<lambda>stats. case create_log env folder stats of (r, dt) \<Rightarrow> (r, dt, [Create_log folder stats]))"

definition send_email_action :: "cycle_env \<Rightarrow> (ProcessingStats, call) callable" where
  "send_email_action env =
     (\<lambda>stats. case send_webscribe_notification env stats of
                 (r, dt) \<Rightarrow> (r, dt, [Send_notification stats]))"

fun get_upload_status :: "ActionResult list \<Rightarrow> string" where
  "get_upload_status [] = ''UNKNOWN''"
| "get_upload_status (r # rs) =
     (if action_name r = ''upload_csv''
      then (if success r then ''SUCCESS''
            else ''FAILED: '' @ (case action_error_message r of Some m \<Rightarrow> m | None \<Rightarrow> ''None''))
      else get_upload_status rs)"

fun get_email_status :: "ActionResult list \<Rightarrow> bool" where
  "get_email_status [] = False"
| "get_email_status (r # rs) =
     (if action_name r = ''send_email'' then success r else get_email_status rs)"

fun get_log_filename :: "ActionResult list \<Rightarrow> string list \<Rightarrow> string" where
  "get_log_filename [] files = []"
| "get_log_filename (r # rs) files =
     (if action_name r = ''create_log'' \<and> success r
      then (case files of f # fs \<Rightarrow> f | [] \<Rightarrow> get_log_filename rs files)
      else get_log_filename rs files)"

definition initial_actions :: "cycle_env \<Rightarrow> string \<Rightarrow> string \<Rightarrow> (ProcessingStats, call) action list" where
  "initial_actions env folder csv_path =
     [\<lparr>name = Some ''upload_csv'', func = Some (upload_csv_action env csv_path)\<rparr>,
      \<lparr>name = Some ''create_log'', func = Some (create_log_action env folder)\<rparr>]"

definition email_action :: "cycle_env \<Rightarrow> (ProcessingStats, call) action" where
  "email_action env = \<lparr>name = Some ''send_email'', func = Some (send_email_action env)\<rparr>"

text \<open>
  \<open>_execute_parallel_actions\<close> with the executor of three workers that \<open>__init__\<close> builds.
  It returns the results, the \<open>stats\<close> object as the method leaves it, and the events of
  its two batches.
\<close>

definition execute_parallel_actions ::
  "cycle_env \<Rightarrow> string \<Rightarrow> string \<Rightarrow> ProcessingStats \<Rightarrow>
   py_exception + ActionResult list \<times> ProcessingStats \<times> call pevent list" where
  "execute_parallel_actions env folder csv_path stats =
     (case execute_parallel 3 stats (wave1_order env) (initial_actions env folder csv_path) of
        Inl e \<Rightarrow> Inl e
      | Inr (initial_results, evs1) \<Rightarrow>
          (let stats' = stats\<lparr>upload_status := get_upload_status initial_results,
                              log_filename := get_log_filename initial_results (log_files env)\<rparr>
           in case execute_parallel 3 stats' (wave2_order env) [email_action env] of
                Inl e \<Rightarrow> Inl e
              | Inr (email_result, evs2) \<Rightarrow>
                  Inr (initial_results @ email_result, stats', evs1 @ evs2)))"

section \<open>controller/main_controller.py: the cycle\<close>

definition str_endswith :: "string \<Rightarrow> string \<Rightarrow> bool" where
  "str_endswith s suffix = str_startswith (rev s) (rev suffix)"

text \<open>\<open>TypeFolderScanner.filter_document_files\<close>\<close>

definition filter_document_files :: "FileInfo list \<Rightarrow> FileInfo list" where
  "filter_document_files files =
     filter (\<lambda>file_info. str_endswith (lower (filename file_info)) ''.doc''
                        \<or> str_endswith (lower (filename file_info)) ''.docx'') files"

text \<open>\<open>_scan_type_folders\<close>: the scan, then the filter of each folder's files.\<close>

definition scan_type_folders :: "cycle_env \<Rightarrow> py_exception + (string \<times> FileInfo list) list" where
  "scan_type_folders env =
     (case ftps_scan env of
        Inl e \<Rightarrow> Inl e
      | Inr scan_results \<Rightarrow>
          Inr (map (\<lambda>(folder, files). (folder, filter_document_files files)) scan_results))"

definition basename :: "string \<Rightarrow> string" where
  "basename p = rev (takeWhile (\<lambda>c. c \<noteq> CHR ''/'') (rev p))"

definition build_empty_stats :: "string \<Rightarrow> datetime \<Rightarrow> datetime \<Rightarrow> ProcessingStats" where
  "build_empty_stats folder t0 now =
     \<lparr>date_folder = folder, start_time = t0, end_time = now, type_folders_scanned = [],
      files_downloaded = [], documents_processed = 0, records_extracted = 0,
      csv_filename = [], csv_size = 0, upload_status = ''N/A - No files'',
      log_filename = [], email_sent = False, errors = []\<rparr>"

definition download_errors :: "DownloadResult list \<Rightarrow> string list" where
  "download_errors download_results =
     map (\<lambda>d. ''Download failed: '' @ type_folder d @ ''/'' @ download_filename d @ '' - ''
                 @ (case download_error_message d of Some m \<Rightarrow> m | None \<Rightarrow> []))
       (filter (\<lambda>d. \<not> download_success d
                     \<and> (case download_error_message d of Some m \<Rightarrow> m \<noteq> [] | None \<Rightarrow> False))
          download_results)"

definition build_processing_stats ::
  "cycle_env \<Rightarrow> string \<Rightarrow> (string \<times> FileInfo list) list \<Rightarrow> DownloadResult list \<Rightarrow>
   string list \<Rightarrow> string \<Rightarrow> ProcessingStats" where
  "build_processing_stats env folder scan_results download_results medical_records csv_path =
     \<lparr>date_folder = folder, start_time = now_start env, end_time = now_built env,
      type_folders_scanned = map (\<lambda>(f, files). (f, length files)) scan_results,
      files_downloaded = download_results,
      documents_processed = length download_results,
      records_extracted = length medical_records,
      csv_filename = basename csv_path, csv_size = getsize env csv_path,
      upload_status = ''Pending'', log_filename = [], email_sent = False,
      errors = download_errors download_results\<rparr>"

text \<open>
  What a cycle does, step by step: the six steps of \<open>run_processing_cycle\<close> (the fifth
  with the events of its batches), the calls of \<open>handle_error\<close> and the failure
  notification of the \<open>except\<close> clause.
\<close>

datatype cycle_event =
    Step_create_date_folder
  | Step_scan
  | Step_download
  | Step_process
  | Step_actions "call pevent list"
  | Step_backup
  | Error_handled ErrorCategory ErrorSeverity string string py_exception
  | Failure_notification string

text \<open>The \<open>except Exception\<close> clause of \<open>run_processing_cycle\<close>.\<close>

definition cycle_failed ::
  "py_exception \<Rightarrow> cycle_event list \<Rightarrow> (py_exception + ProcessingStats) \<times> cycle_event list" where
  "cycle_failed e evs =
     (Inl \<lparr>type_name = ''ProcessingError'', str_of = ''Processing cycle failed: '' @ str_of e,
           traceback = []\<rparr>,
      evs @ [Error_handled SYSTEM_RESOURCE CRITICAL ''MainController'' ''run_processing_cycle'' e,
             Failure_notification (''Critical error: '' @ str_of e)])"

text \<open>Steps 5 and 6, once the documents are processed.\<close>

definition publish_and_backup ::
  "cycle_env \<Rightarrow> string \<Rightarrow> ProcessingStats \<Rightarrow> string \<Rightarrow> cycle_event list \<Rightarrow>
   (py_exception + ProcessingStats) \<times> cycle_event list" where
  "publish_and_backup env folder stats csv_path evs =
     (case execute_parallel_actions env folder csv_path stats of
        Inl e \<Rightarrow> cycle_failed e evs
      | Inr (action_results, stats', pevs) \<Rightarrow>
          (Inr (stats'\<lparr>upload_status := get_upload_status action_results,
                       email_sent := get_email_status action_results,
                       log_filename := get_log_filename action_results (log_files env),
                       end_time := now_end env\<rparr>),
           evs @ [Step_actions pevs, Step_backup]))"

text \<open>Steps 3 and 4, once the scan has found files.\<close>

definition download_and_process ::
  "cycle_env \<Rightarrow> string \<Rightarrow> (string \<times> FileInfo list) list \<Rightarrow>
   (py_exception + ProcessingStats) \<times> cycle_event list" where
  "download_and_process env folder scan_results =
     (case download_files env scan_results folder of
        Inl e \<Rightarrow>
          cycle_failed e
            [Step_create_date_folder, Step_scan, Step_download,
             Error_handled SFTP_CONNECTION HIGH ''MainController''
               ''download_files_to_date_folder'' e]
      | Inr download_results \<Rightarrow>
          if length (filter download_success download_results) = 0
          then (Inr (build_empty_stats folder (now_start env) (now_end env)),
                [Step_create_date_folder, Step_scan, Step_download])
          else
            (case process_documents env folder of
               Inl e \<Rightarrow>
                 cycle_failed e
                   [Step_create_date_folder, Step_scan, Step_download, Step_process,
                    Error_handled FILE_PROCESSING HIGH ''MainController''
                      ''process_documents_and_generate_csv'' e]
             | Inr (medical_records, csv_path) \<Rightarrow>
                 publish_and_backup env folder
                   (build_processing_stats env folder scan_results download_results
                      medical_records csv_path)
                   csv_path
                   [Step_create_date_folder, Step_scan, Step_download, Step_process]))"

definition run_processing_cycle ::
  "cycle_env \<Rightarrow> (py_exception + ProcessingStats) \<times> cycle_event list" where
  "run_processing_cycle env =
     (case create_date_folder env of
        Inl e \<Rightarrow>
          cycle_failed e
            [Step_create_date_folder,
             Error_handled SYSTEM_RESOURCE CRITICAL ''MainController'' ''create_date_folder'' e]
      | Inr folder \<Rightarrow>
          (case scan_type_folders env of
             Inl e \<Rightarrow>
               cycle_failed e
                 [Step_create_date_folder, Step_scan,
                  Error_handled SFTP_CONNECTION CRITICAL ''MainController''
                    ''scan_type_folders'' e]
           | Inr scan_results \<Rightarrow>
               (let total_files = sum_list (map (\<lambda>(f, files). length files) scan_results)
                in if total_files = 0
                   then (Inr (build_empty_stats folder (now_start env) (now_end env)),
                         [Step_create_date_folder, Step_scan])
                   else download_and_process env folder scan_results)))"

section \<open>Concrete inputs\<close>

text \<open>A fresh handler with retention disabled, and two exceptions, used to run the model.\<close>

definition fresh_handler :: ErrorHandler where
  "fresh_handler =
     \<lparr>error_history = [], error_counts = Map.empty, last_error_times = Map.empty,
      error_log_file = None, temp_file = None, error_log_retention_days = 0\<rparr>"

definition timeout_error :: py_exception where
  "timeout_error = \<lparr>type_name = ''TimeoutError'', str_of = ''Timed out'', traceback = []\<rparr>"

definition denied_error :: py_exception where
  "denied_error = \<lparr>type_name = ''OSError'', str_of = ''Permission Denied: /out'', traceback = []\<rparr>"


text \<open>
  A connection that times out twice and then succeeds with the value 7, every random
  draw being \<open>1/2\<close>.
\<close>

definition flaky_connect :: "(py_exception + nat option) \<times> ErrorHandler \<times> event list" where
  "flaky_connect =
     execute_with_retry (\<lambda>k. if k < 2 then Inl timeout_error else Inr (7::nat))
       (\<lambda>k. 1/2) (\<lambda>k. 100) SFTP_CONNECTION ''SFTPManager'' ''connect'' [] fresh_handler"




text \<open>
  A schedule of one run a minute with no cron expression, one with an empty cron
  expression, and libraries that accept every expression and zone.
\<close>

definition interval_config :: ScheduleConfig where
  "interval_config = \<lparr>poll_interval_seconds = 60, poll_cron = None, timezone = ''UTC''\<rparr>"

definition empty_cron_config :: ScheduleConfig where
  "empty_cron_config = \<lparr>poll_interval_seconds = 60, poll_cron = Some [], timezone = ''UTC''\<rparr>"

definition daily_cron_config :: ScheduleConfig where
  "daily_cron_config = \<lparr>poll_interval_seconds = 60, poll_cron = Some ''0 9 * * *'', timezone = ''UTC''\<rparr>"

definition lenient_env :: sched_env where
  "lenient_env =
     \<lparr>croniter_next = (\<lambda>expr start. Inr (start + 60000000)),
      pytz_timezone = (\<lambda>name. Inr 0),
      utc_now = timedelta_days 739000\<rparr>"



text \<open>
  A cycle whose scan finds a text file and no document; and the collaborators of a
  publish phase in which the upload is refused and the log is written.
\<close>

definition readme :: FileInfo where
  "readme = \<lparr>filename = ''README.TXT'', full_path = ''/in/type3/README.TXT'', file_size = 10,
             mtime = timedelta_days 739000, is_directory = False\<rparr>"

definition quiet_env :: cycle_env where
  "quiet_env =
     \<lparr>create_date_folder = Inr ''2025-11-24'',
      ftps_scan = Inr [(''type3'', [readme]), (''type6'', [])],
      download_files = (\<lambda>scan folder. Inr []),
      process_documents = (\<lambda>folder. Inr ([], folder @ ''/out.csv'')),
      getsize = (\<lambda>p. 0),
      log_files = [''processing_log_20251125_010203.txt''],
      upload_file = (\<lambda>p. (Some denied_error, 2)),
      create_log = (\<lambda>folder stats. (None, 1)),
      send_webscribe_notification = (\<lambda>stats. (None, 1)),
      now_start = timedelta_days 739000, now_built = timedelta_days 739000 + 5,
      now_end = timedelta_days 739000 + 9,
      wave1_order = [1], wave2_order = []\<rparr>"


section \<open>Facts about strings and classification\<close>

lemma str_startswith_iff: "str_startswith s p \<longleftrightarrow> (\<exists>suf. s = p @ suf)"
  by (induction s p rule: str_startswith.induct) auto

lemma str_contains_iff: "str_contains p s \<longleftrightarrow> (\<exists>pre suf. s = pre @ p @ suf)"
proof (induction s)
  case Nil
  then show ?case by auto
next
  case (Cons c s)
  show ?case
  proof
    assume "str_contains p (c # s)"
    then consider "str_startswith (c # s) p" | "str_contains p s" by auto
    then show "\<exists>pre suf. c # s = pre @ p @ suf"
    proof cases
      case 1
      then obtain suf where "c # s = p @ suf" using str_startswith_iff by blast
      then have "c # s = [] @ p @ suf" by simp
      then show ?thesis by blast
    next
      case 2
      then obtain pre suf where "s = pre @ p @ suf" using Cons.IH by blast
      then have "c # s = (c # pre) @ p @ suf" by simp
      then show ?thesis by blast
    qed
  next
    assume "\<exists>pre suf. c # s = pre @ p @ suf"
    then obtain pre suf where eq: "c # s = pre @ p @ suf" by blast
    show "str_contains p (c # s)"
    proof (cases pre)
      case Nil
      then have "str_startswith (c # s) p" using eq str_startswith_iff by auto
      then show ?thesis by simp
    next
      case (Cons x pre')
      then have "s = pre' @ p @ suf" using eq by simp
      then have "str_contains p s" using Cons.IH by blast
      then show ?thesis by simp
    qed
  qed
qed

lemma no_pattern_matches_iff:
  "no_pattern_matches ps msg \<longleftrightarrow> \<not> (\<exists>p \<in> set ps. str_contains p msg)"
  by (induction ps) auto

lemma is_recoverable_error_iff:
  "(\<not> is_recoverable_error e cat) =
     (cat \<in> {CONFIGURATION, VALIDATION}
      \<or> type_name e \<in> {''FileNotFoundError'', ''PermissionError'', ''AuthenticationError'',
            ''SMTPAuthenticationError'', ''SMTPRecipientsRefused'', ''ValueError'',
            ''TypeError'', ''AttributeError''}
      \<or> (\<exists>p \<in> {''authentication failed'', ''invalid credentials'', ''permission denied'',
            ''file not found'', ''invalid format'', ''malformed'', ''corrupt''}.
            \<exists>pre suf. lower (str_of e) = pre @ p @ suf))"
proof -
  have P: "{''authentication failed'', ''invalid credentials'', ''permission denied'',
            ''file not found'', ''invalid format'', ''malformed'', ''corrupt''}
           = set non_recoverable_patterns"
    by (simp add: non_recoverable_patterns_def)
  have T: "{''FileNotFoundError'', ''PermissionError'', ''AuthenticationError'',
            ''SMTPAuthenticationError'', ''SMTPRecipientsRefused'', ''ValueError'',
            ''TypeError'', ''AttributeError''} = set non_recoverable_types"
    by (simp add: non_recoverable_types_def)
  show ?thesis
    unfolding P T is_recoverable_error_def
    by (simp add: no_pattern_matches_iff str_contains_iff)
qed

lemma timeout_error_recoverable: "is_recoverable_error timeout_error FILE_PROCESSING"
  by (simp add: is_recoverable_error_def timeout_error_def non_recoverable_types_def
      non_recoverable_patterns_def lower_def lower_char_def ascii_uppercase_def
      ascii_lowercase_def)

lemma denied_error_not_recoverable: "\<not> is_recoverable_error denied_error SFTP_CONNECTION"
  by (simp add: is_recoverable_error_def denied_error_def non_recoverable_types_def
      non_recoverable_patterns_def lower_def lower_char_def ascii_uppercase_def
      ascii_lowercase_def)

lemma handle_error_context:
  "fst (handle_error now e cat sev cmpt opn data rc mr h) =
     \<lparr>timestamp = now, category = cat, severity = sev, component = cmpt,
      operation = opn, error_message = str_of e,
      exception_type = type_name e, stack_trace = traceback e,
      additional_data = data, retry_count = rc, max_retries = mr,
      is_recoverable = is_recoverable_error e cat\<rparr>"
  by (simp add: handle_error_def Let_def)

section \<open>Facts about the retry table and the delay\<close>

lemma retry_config_for_bounds:
  "1 \<le> max_attempts (retry_config_for cat) \<and> max_attempts (retry_config_for cat) \<le> 5
   \<and> 0 \<le> base_delay (retry_config_for cat) \<and> 0 \<le> max_delay (retry_config_for cat)"
  by (cases cat) (simp_all add: retry_config_for_def mk_RetryConfig_def RetryConfig_default_def)

lemma calculate_retry_delay_nonneg:
  "0 \<le> base_delay cfg \<Longrightarrow> 0 \<le> max_delay cfg \<Longrightarrow> 0 \<le> r \<Longrightarrow> 0 \<le> calculate_retry_delay a cfg r"
  by (simp add: calculate_retry_delay_def Let_def)

section \<open>Facts about the retry loop\<close>

lemma invocations_append: "invocations (xs @ ys) = invocations xs @ invocations ys"
  by (induction xs rule: invocations.induct) simp_all

lemma records_append: "records (xs @ ys) = records xs @ records ys"
  by (induction xs rule: records.induct) simp_all

lemma try_body_shape:
  "snd (try_body oper rnd cfg a) = [] \<or> snd (try_body oper rnd cfg a) = [Invoke a]
   \<or> (\<exists>d. 0 < a \<and> snd (try_body oper rnd cfg a) = [Sleep d, Invoke a])"
  by (simp add: try_body_def Let_def)

lemma try_body_invocations_le: "length (invocations (snd (try_body oper rnd cfg a))) \<le> 1"
  using try_body_shape [of oper rnd cfg a] by auto

lemma try_body_records: "records (snd (try_body oper rnd cfg a)) = []"
  using try_body_shape [of oper rnd cfg a] by auto

lemma try_body_failing:
  assumes "0 \<le> base_delay cfg" "0 \<le> max_delay cfg" "0 \<le> rnd a"
  shows "\<exists>evs. try_body (\<lambda>k. Inl (errs k)) rnd cfg a = (Inl (errs a), evs)
           \<and> invocations evs = [a] \<and> records evs = []"
  using calculate_retry_delay_nonneg [OF assms, of a]
  by (simp add: try_body_def Let_def not_less [symmetric])

lemma sleeps_ok_prepend:
  "evs = [] \<or> evs = [Invoke a] \<or> (\<exists>d. 0 < a \<and> evs = [Sleep d, Invoke a]) \<Longrightarrow>
   sleeps_only_before_retries (evs @ tr) = sleeps_only_before_retries tr"
  by auto

text \<open>One pass of the loop body: the three ways it can go.\<close>

lemma retry_loop_step:
  obtains (returned) v evs where
      "try_body oper rnd cfg a = (Inr v, evs)"
      "retry_loop oper rnd clock cfg cat cmpt opname data (a # as) lerr h = (Inr (Some v), h, evs)"
  | (stopped) e evs c h' where
      "try_body oper rnd cfg a = (Inl e, evs)"
      "retry_count c = int a" "max_retries c = max_attempts cfg - 1"
      "is_recoverable c = is_recoverable_error e cat"
      "\<not> is_recoverable_error e cat"
      "retry_loop oper rnd clock cfg cat cmpt opname data (a # as) lerr h
         = (Inl e, h', evs @ [Handled c])"
  | (continued) e evs c h' out h'' tr where
      "try_body oper rnd cfg a = (Inl e, evs)"
      "retry_count c = int a" "max_retries c = max_attempts cfg - 1"
      "is_recoverable c = is_recoverable_error e cat"
      "is_recoverable_error e cat"
      "retry_loop oper rnd clock cfg cat cmpt opname data as (Some e) h' = (out, h'', tr)"
      "retry_loop oper rnd clock cfg cat cmpt opname data (a # as) lerr h
         = (out, h'', evs @ Handled c # tr)"
proof -
  obtain r evs where tb: "try_body oper rnd cfg a = (r, evs)" by (cases "try_body oper rnd cfg a")
  show thesis
  proof (cases r)
    case (Inr v)
    then show ?thesis using tb returned by simp
  next
    case (Inl e)
    define sev where "sev = (if int a = max_attempts cfg - 1 then determine_error_severity e cat else LOW)"
    define c where "c = fst (handle_error (clock a) e cat sev cmpt opname data (int a) (max_attempts cfg - 1) h)"
    define h' where "h' = snd (handle_error (clock a) e cat sev cmpt opname data (int a) (max_attempts cfg - 1) h)"
    have he: "handle_error (clock a) e cat sev cmpt opname data (int a) (max_attempts cfg - 1) h = (c, h')"
      by (simp add: c_def h'_def)
    have c1: "retry_count c = int a" and c2: "max_retries c = max_attempts cfg - 1"
      and c3: "is_recoverable c = is_recoverable_error e cat"
      by (simp_all add: c_def handle_error_context)
    show ?thesis
    proof (cases "is_recoverable_error e cat")
      case False
      have "retry_loop oper rnd clock cfg cat cmpt opname data (a # as) lerr h
              = (Inl e, h', evs @ [Handled c])"
        using tb Inl he c3 False by (simp add: sev_def [symmetric])
      then show ?thesis using stopped [OF _ c1 c2 c3 False] tb Inl by simp
    next
      case True
      obtain out h'' tr where
        rec: "retry_loop oper rnd clock cfg cat cmpt opname data as (Some e) h' = (out, h'', tr)"
        by (cases "retry_loop oper rnd clock cfg cat cmpt opname data as (Some e) h'")
      have "retry_loop oper rnd clock cfg cat cmpt opname data (a # as) lerr h
              = (out, h'', evs @ Handled c # tr)"
        using tb Inl he c3 True rec by (simp add: sev_def [symmetric])
      then show ?thesis using continued [OF _ c1 c2 c3 True rec] tb Inl by simp
    qed
  qed
qed

lemma retry_loop_invocations:
  "length (invocations (snd (snd (retry_loop oper rnd clock cfg cat cmpt opname data as lerr h))))
     \<le> length as"
proof (induction as arbitrary: lerr h)
  case Nil
  then show ?case by simp
next
  case (Cons a as)
  show ?case
  proof (cases rule: retry_loop_step [of oper rnd cfg a clock cat cmpt opname data as lerr h])
    case (returned v evs)
    then show ?thesis using try_body_invocations_le [of oper rnd cfg a] by simp
  next
    case (stopped e evs c h')
    then show ?thesis using try_body_invocations_le [of oper rnd cfg a]
      by (simp add: invocations_append)
  next
    case (continued e evs c h' out h'' tr)
    then show ?thesis using try_body_invocations_le [of oper rnd cfg a] Cons.IH [of "Some e" h']
      by (simp add: invocations_append)
  qed
qed

lemma retry_loop_sleeps:
  "sleeps_only_before_retries
     (snd (snd (retry_loop oper rnd clock cfg cat cmpt opname data as lerr h)))"
proof (induction as arbitrary: lerr h)
  case Nil
  then show ?case by simp
next
  case (Cons a as)
  have sh: "snd (try_body oper rnd cfg a) = [] \<or> snd (try_body oper rnd cfg a) = [Invoke a]
     \<or> (\<exists>d. 0 < a \<and> snd (try_body oper rnd cfg a) = [Sleep d, Invoke a])"
    by (rule try_body_shape)
  show ?case
  proof (cases rule: retry_loop_step [of oper rnd cfg a clock cat cmpt opname data as lerr h])
    case (returned v evs)
    then show ?thesis using sh by auto
  next
    case (stopped e evs c h')
    then show ?thesis using sleeps_ok_prepend [OF sh, of "[Handled c]"] by simp
  next
    case (continued e evs c h' out h'' tr)
    then show ?thesis
      using sleeps_ok_prepend [OF sh, of "Handled c # tr"] Cons.IH [of "Some e" h'] by simp
  qed
qed

lemma retry_loop_records:
  "list_all (\<lambda>c. retry_count c \<in> int ` set as \<and> max_retries c = max_attempts cfg - 1)
     (records (snd (snd (retry_loop oper rnd clock cfg cat cmpt opname data as lerr h))))"
proof (induction as arbitrary: lerr h)
  case Nil
  then show ?case by simp
next
  case (Cons a as)
  show ?case
  proof (cases rule: retry_loop_step [of oper rnd cfg a clock cat cmpt opname data as lerr h])
    case (returned v evs)
    then show ?thesis using try_body_records [of oper rnd cfg a] by simp
  next
    case (stopped e evs c h')
    then show ?thesis using try_body_records [of oper rnd cfg a]
      by (simp add: records_append)
  next
    case (continued e evs c h' out h'' tr)
    have "list_all (\<lambda>c. retry_count c \<in> int ` set as \<and> max_retries c = max_attempts cfg - 1)
            (records tr)"
      using Cons.IH [of "Some e" h'] continued by simp
    then have "list_all (\<lambda>c. retry_count c \<in> int ` set (a # as)
                 \<and> max_retries c = max_attempts cfg - 1) (records tr)"
      by (rule list.pred_mono_strong) auto
    then show ?thesis using continued try_body_records [of oper rnd cfg a]
      by (simp add: records_append)
  qed
qed

text \<open>When the operation fails at every attempt and no sleep raises.\<close>

lemma span_nonempty: "as \<noteq> [] \<Longrightarrow> takeWhile P as @ take 1 (dropWhile P as) \<noteq> []"
  by (cases as) auto

lemma retry_loop_all_fail:
  assumes "0 \<le> base_delay cfg" "0 \<le> max_delay cfg" "\<forall>k. 0 \<le> rnd k"
  shows "as \<noteq> [] \<Longrightarrow>
     invocations (snd (snd (retry_loop (\<lambda>k. Inl (errs k) :: py_exception + 'r) rnd clock cfg cat
                              cmpt opname data as lerr h)))
       = takeWhile (\<lambda>k. is_recoverable_error (errs k) cat) as
         @ take 1 (dropWhile (\<lambda>k. is_recoverable_error (errs k) cat) as)
     \<and> fst (retry_loop (\<lambda>k. Inl (errs k) :: py_exception + 'r) rnd clock cfg cat
              cmpt opname data as lerr h)
       = Inl (errs (last (takeWhile (\<lambda>k. is_recoverable_error (errs k) cat) as
         @ take 1 (dropWhile (\<lambda>k. is_recoverable_error (errs k) cat) as))))"
proof (induction as arbitrary: lerr h)
  case Nil
  then show ?case by simp
next
  case (Cons a as)
  let ?P = "\<lambda>k. is_recoverable_error (errs k) cat"
  let ?op = "\<lambda>k. Inl (errs k) :: py_exception + 'r"
  obtain evs0 where tb: "try_body ?op rnd cfg a = (Inl (errs a), evs0)"
    and inv0: "invocations evs0 = [a]"
    using try_body_failing [OF assms(1,2), of rnd a errs] assms(3) by blast
  show ?case
  proof (cases rule: retry_loop_step [of ?op rnd cfg a clock cat cmpt opname data as lerr h])
    case (returned v evs)
    then show ?thesis using tb by simp
  next
    case (stopped e evs c h')
    then have e: "e = errs a" "evs = evs0" using tb by simp_all
    have L: "retry_loop ?op rnd clock cfg cat cmpt opname data (a # as) lerr h
               = (Inl (errs a), h', evs0 @ [Handled c])"
      using stopped(6) e by simp
    have "\<not> ?P a" using stopped(5) e by simp
    then have tw: "takeWhile ?P (a # as) @ take 1 (dropWhile ?P (a # as)) = [a]" by simp
    show ?thesis unfolding L tw using inv0 by (simp add: invocations_append)
  next
    case (continued e evs c h' out h'' tr)
    then have e: "e = errs a" "evs = evs0" using tb by simp_all
    have L: "retry_loop ?op rnd clock cfg cat cmpt opname data (a # as) lerr h
               = (out, h'', evs0 @ Handled c # tr)"
      using continued(7) e by simp
    have R: "retry_loop ?op rnd clock cfg cat cmpt opname data as (Some (errs a)) h'
               = (out, h'', tr)"
      using continued(6) e by simp
    have Pa: "?P a" using continued(5) e by simp
    then have tw: "takeWhile ?P (a # as) @ take 1 (dropWhile ?P (a # as))
                     = a # (takeWhile ?P as @ take 1 (dropWhile ?P as))" by simp
    show ?thesis
    proof (cases as)
      case Nil
      have "out = Inl (errs a)" "tr = []" using R Nil by simp_all
      then show ?thesis unfolding L tw using inv0 Nil by (simp add: invocations_append)
    next
      case (Cons b bs)
      then have ne: "as \<noteq> []" by simp
      have IH: "invocations tr = takeWhile ?P as @ take 1 (dropWhile ?P as)"
        "out = Inl (errs (last (takeWhile ?P as @ take 1 (dropWhile ?P as))))"
        using Cons.IH [OF ne, of "Some (errs a)" h'] R by simp_all
      have ne': "takeWhile ?P as @ take 1 (dropWhile ?P as) \<noteq> []"
        using ne by (rule span_nonempty)
      have la: "last (a # (takeWhile ?P as @ take 1 (dropWhile ?P as)))
                  = last (takeWhile ?P as @ take 1 (dropWhile ?P as))"
        using ne' by (rule last_ConsR)
      show ?thesis unfolding L tw la using inv0 IH by (simp add: invocations_append)
    qed
  qed
qed

lemma retry_loop_all_fail_records:
  assumes "0 \<le> base_delay cfg" "0 \<le> max_delay cfg" "\<forall>k. 0 \<le> rnd k"
  shows "map (\<lambda>c. (retry_count c, is_recoverable c))
           (records (snd (snd (retry_loop (\<lambda>k. Inl (errs k) :: py_exception + 'r) rnd clock cfg
                              cat cmpt opname data as lerr h))))
       = map (\<lambda>k. (int k, is_recoverable_error (errs k) cat))
           (invocations (snd (snd (retry_loop (\<lambda>k. Inl (errs k) :: py_exception + 'r) rnd clock
                              cfg cat cmpt opname data as lerr h))))"
proof (induction as arbitrary: lerr h)
  case Nil
  then show ?case by simp
next
  case (Cons a as)
  let ?op = "\<lambda>k. Inl (errs k) :: py_exception + 'r"
  obtain evs0 where tb: "try_body ?op rnd cfg a = (Inl (errs a), evs0)"
    and inv0: "invocations evs0 = [a]" and rec0: "records evs0 = []"
    using try_body_failing [OF assms(1,2), of rnd a errs] assms(3) by blast
  show ?case
  proof (cases rule: retry_loop_step [of ?op rnd cfg a clock cat cmpt opname data as lerr h])
    case (returned v evs)
    then show ?thesis using tb by simp
  next
    case (stopped e evs c h')
    then have e: "e = errs a" "evs = evs0" using tb by simp_all
    have L: "retry_loop ?op rnd clock cfg cat cmpt opname data (a # as) lerr h
               = (Inl (errs a), h', evs0 @ [Handled c])"
      using stopped(6) e by simp
    show ?thesis unfolding L using inv0 rec0 stopped(2,4) e
      by (simp add: invocations_append records_append)
  next
    case (continued e evs c h' out h'' tr)
    then have e: "e = errs a" "evs = evs0" using tb by simp_all
    have L: "retry_loop ?op rnd clock cfg cat cmpt opname data (a # as) lerr h
               = (out, h'', evs0 @ Handled c # tr)"
      using continued(7) e by simp
    have R: "retry_loop ?op rnd clock cfg cat cmpt opname data as (Some (errs a)) h'
               = (out, h'', tr)"
      using continued(6) e by simp
    have IH: "map (\<lambda>c. (retry_count c, is_recoverable c)) (records tr)
                = map (\<lambda>k. (int k, is_recoverable_error (errs k) cat)) (invocations tr)"
      using Cons.IH [of "Some (errs a)" h'] R by simp
    show ?thesis unfolding L using inv0 rec0 continued(2,4) e IH
      by (simp add: invocations_append records_append)
  qed
qed

lemma upt_split: "k < n \<Longrightarrow> [0..<n] = [0..<k] @ k # [Suc k..<n]"
  by (metis le_add1 less_imp_add_positive plus_nat.add_0 upt_add_eq_append upt_conv_Cons)

lemma span_upt_all:
  assumes "\<forall>k<n. P k"
  shows "takeWhile P [0..<n] @ take 1 (dropWhile P [0..<n]) = [0..<n]"
proof -
  have tw: "takeWhile P [0..<n] = [0..<n]" using assms by simp
  have dw: "dropWhile P [0..<n] = []" using assms by simp
  show ?thesis unfolding tw dw by simp
qed

lemma span_upt_first:
  assumes "k < n" "\<not> P k" "\<forall>j<k. P j"
  shows "takeWhile P [0..<n] @ take 1 (dropWhile P [0..<n]) = [0..<Suc k]"
proof -
  have a: "\<forall>x\<in>set [0..<k]. P x" using assms(3) by simp
  have "takeWhile P [0..<n] = [0..<k]"
    using upt_split [OF assms(1)] takeWhile_append2 [of "[0..<k]" P "k # [Suc k..<n]"] a assms(2)
    by simp
  moreover have "dropWhile P [0..<n] = k # [Suc k..<n]"
    using upt_split [OF assms(1)] dropWhile_append2 [of "[0..<k]" P "k # [Suc k..<n]"] a assms(2)
    by simp
  ultimately show ?thesis by simp
qed

text \<open>The run \<open>flaky_connect\<close>, event by event.\<close>

lemma flaky_connect_run:
  "retry_outcome flaky_connect = Inr (Some 7)
   \<and> invocations (retry_trace flaky_connect) = [0, 1, 2]
   \<and> sleeps (retry_trace flaky_connect) = [3, 6]
   \<and> map (\<lambda>c. (retry_count c, max_retries c)) (records (retry_trace flaky_connect))
       = [(0, 4), (1, 4)]"
  by (simp add: flaky_connect_def execute_with_retry_def retry_trace_def retry_outcome_def
      retry_config_for_def mk_RetryConfig_def RetryConfig_default_def upt_rec try_body_def
      calculate_retry_delay_def Let_def handle_error_def is_recoverable_error_def
      timeout_error_def non_recoverable_types_def non_recoverable_patterns_def lower_def
      lower_char_def ascii_uppercase_def ascii_lowercase_def split: prod.splits)

section \<open>Facts about the cleanup\<close>












section \<open>Facts about the parallel executor\<close>





















section \<open>Facts about the cycle\<close>

lemma scan_total:
  "sum_list (map (\<lambda>(f, files). length files)
       (map (\<lambda>(folder, files). (folder, filter_document_files files)) found))
   = sum_list (map (\<lambda>(f, files). length (filter_document_files files)) found)"
  by (induction found) auto

section \<open>Facts about the floating-point delay\<close>

lemma powr_powi2: "2 powr real_of_int k = (2::real) powi k"
  by (rule powr_real_of_int') simp_all

lemma floor_log2_bounds:
  assumes "0 < (x::real)"
  shows "2 powi \<lfloor>log 2 x\<rfloor> \<le> x" and "x < 2 powi (\<lfloor>log 2 x\<rfloor> + 1)"
proof -
  have "2 powr real_of_int \<lfloor>log 2 x\<rfloor> \<le> x \<and> x < 2 powr real_of_int (\<lfloor>log 2 x\<rfloor> + 1)"
    using floor_log_eq_powr_iff [of x 2 "\<lfloor>log 2 x\<rfloor>"] assms by (simp del: of_int_add)
  then show "2 powi \<lfloor>log 2 x\<rfloor> \<le> x" and "x < 2 powi (\<lfloor>log 2 x\<rfloor> + 1)"
    unfolding powr_powi2 by simp_all
qed


lemma powi2_less_cancel:
  assumes "(2::real) powi a < 2 powi b"
  shows "a < b"
proof (rule ccontr)
  assume "\<not> a < b"
  then have "b \<le> a" by simp
  then have "(2::real) powi b \<le> 2 powi a" by (rule power_int_increasing) simp
  then show False using assms by simp
qed

lemma round_half_even_of_int: "round_half_even (of_int z) = z"
  by (simp add: round_half_even_def)

lemma round_half_even_bounds:
  "\<lfloor>x\<rfloor> \<le> round_half_even x" "round_half_even x \<le> \<lfloor>x\<rfloor> + 1"
  by (simp_all add: round_half_even_def Let_def)

text \<open>A number with a mantissa of at most 53 bits and an exponent of at least -1074 is a float.\<close>

lemma fl_exact:
  assumes M: "\<bar>M\<bar> < 2 ^ 53" and e: "- 1074 \<le> e"
  shows "fl (of_int M * 2 powi e) = of_int M * 2 powi e"
proof (cases "M = 0")
  case True
  then show ?thesis by (simp add: fl_def)
next
  case False
  let ?x = "of_int M * 2 powi e :: real"
  let ?E = "float_exponent ?x"
  have x0: "?x \<noteq> 0" using False by simp
  have ax: "\<bar>?x\<bar> = of_int \<bar>M\<bar> * 2 powi e" by (simp add: abs_mult)
  have "of_int \<bar>M\<bar> < (2::real) ^ 53" using M by (metis of_int_less_numeral_power_cancel_iff)
  then have "\<bar>?x\<bar> < 2 ^ 53 * 2 powi e" unfolding ax by simp
  also have "\<dots> = 2 powi (53 + e)" by (simp add: power_int_add)
  finally have lt: "\<bar>?x\<bar> < 2 powi (53 + e)" .
  have pos: "0 < \<bar>?x\<bar>" using x0 by simp
  have "2 powi \<lfloor>log 2 \<bar>?x\<bar>\<rfloor> < (2::real) powi (53 + e)"
    using floor_log2_bounds(1) [OF pos] lt by linarith
  then have "\<lfloor>log 2 \<bar>?x\<bar>\<rfloor> < 53 + e" by (rule powi2_less_cancel)
  then have E: "?E \<le> e" using e by (simp add: float_exponent_def)
  then obtain j :: nat where j: "e = ?E + int j" by (metis zle_iff_zadd)
  have "?x / 2 powi ?E = of_int M * (2 powi e / 2 powi ?E)" by simp
  also have "2 powi e / 2 powi ?E = (2::real) powi (e - ?E)" by (simp add: power_int_diff)
  also have "e - ?E = int j" using j by simp
  also have "of_int M * (2::real) powi int j = of_int (M * 2 ^ j)" by (simp add: power_int_of_nat)
  finally have q: "?x / 2 powi ?E = of_int (M * 2 ^ j)" .
  have "fl ?x = of_int (round_half_even (?x / 2 powi ?E)) * 2 powi ?E"
    using x0 unfolding fl_def by (simp only: if_False)
  also have "\<dots> = of_int (M * 2 ^ j) * 2 powi ?E"
    unfolding q round_half_even_of_int ..
  also have "\<dots> = ?x / 2 powi ?E * 2 powi ?E" unfolding q ..
  also have "\<dots> = ?x" by simp
  finally show ?thesis .
qed


lemma fl_exact_le:
  assumes M: "\<bar>M\<bar> \<le> 2 ^ 53" and e: "- 1074 \<le> e"
  shows "fl (of_int M * 2 powi e) = of_int M * 2 powi e"
proof (cases "\<bar>M\<bar> < 2 ^ 53")
  case True
  then show ?thesis using e by (rule fl_exact)
next
  case False
  then have "\<bar>M\<bar> = 2 ^ 53" using M by simp
  then consider "M = 2 ^ 53" | "M = - (2 ^ 53)" by linarith
  then have "\<exists>s::int. \<bar>s\<bar> < 2 ^ 53 \<and> of_int M * (2::real) powi e = of_int s * 2 powi (e + 53)"
  proof cases
    case 1
    have "of_int M * (2::real) powi e = of_int 1 * 2 powi (e + 53)"
      unfolding 1 by (simp add: power_int_add)
    moreover have "\<bar>1::int\<bar> < 2 ^ 53" by simp
    ultimately show ?thesis by blast
  next
    case 2
    have "of_int M * (2::real) powi e = of_int (- 1) * 2 powi (e + 53)"
      unfolding 2 by (simp add: power_int_add)
    moreover have "\<bar>- 1::int\<bar> < 2 ^ 53" by simp
    ultimately show ?thesis by blast
  qed
  then obtain s :: int where s: "\<bar>s\<bar> < 2 ^ 53"
    and x: "of_int M * (2::real) powi e = of_int s * 2 powi (e + 53)" by blast
  have "- 1074 \<le> e + 53" using e by simp
  with s show ?thesis unfolding x by (rule fl_exact)
qed

lemma float_of_exact:
  assumes "\<bar>M\<bar> \<le> 2 ^ 53" and "- 1074 \<le> e" and "\<bar>of_int M * 2 powi e\<bar> \<le> float_max"
  shows "float_of (of_int M * 2 powi e) = Finite (of_int M * 2 powi e)"
  using assms(3) unfolding float_of_def fl_exact_le [OF assms(1,2)] Let_def by auto

lemma float_max_ge: "2 ^ 53 \<le> float_max"
proof -
  have "(2::real) ^ 53 * 1 \<le> (2 ^ 53 - 1) * 2 ^ 971"
    by (rule order_trans [of _ "2 ^ 53 * 2"]) simp_all
  then show ?thesis by (simp add: float_max_def)
qed




lemma py_min_Finite: "py_min (Finite a) (Finite b) = Finite (min a b)"
  by (simp add: py_min_def min_def)



text \<open>
  With a base delay \<open>D * 2\<^sup>j\<close> for \<open>D\<close> 0 or 1, on the first five attempts, no operation of
  the delay but the sum of the jitter factor rounds.
\<close>

lemma calculate_retry_delay_float_dyadic:
  assumes eb: "exponential_backoff cfg" and jt: "jitter cfg" and md: "32 \<le> max_delay cfg"
    and b: "base_delay cfg = of_int D * 2 powi j"
    and D: "D = 0 \<or> D = 1" and j: "- 1 \<le> j" "j \<le> 1"
    and k4: "k \<le> 4"
    and F: "2 ^ 52 \<le> F" "F \<le> 2 ^ 53"
    and jf: "jitter_factor r = Finite (of_int F / 2 ^ 53)"
    and d: "d = min (base_delay cfg * 2 ^ k) (max_delay cfg)"
  shows "backoff_delay k cfg = Inr (Finite d)"
    and "calculate_retry_delay_float k cfg r = Inr (Finite (d * (of_int F / 2 ^ 53)))"
    and "calculate_retry_delay_float k (cfg\<lparr>jitter := False\<rparr>) r = Inr (Finite d)"
proof -
  let ?p = "base_delay cfg * 2 ^ k"
  have p: "?p = of_int D * 2 powi (j + int k)"
    unfolding b by (simp add: power_int_add power_int_of_nat)
  have "(2::real) powi (j + int k) \<le> 2 powi 5"
    by (rule power_int_increasing) (use j k4 in simp_all)
  then have pw: "(2::real) powi (j + int k) \<le> 32" by simp
  have pw0: "0 \<le> (2::real) powi (j + int k)" by simp
  have p0: "0 \<le> ?p" unfolding p using D pw0 by (elim disjE) simp_all
  have p32: "?p \<le> 32" unfolding p using D pw by (elim disjE) simp_all
  have fm: "32 \<le> float_max" using float_max_ge by (rule order_trans [rotated]) simp
  have "float_of (of_int D * 2 powi (j + int k)) = Finite (of_int D * 2 powi (j + int k))"
  proof (rule float_of_exact)
    show "\<bar>D\<bar> \<le> 2 ^ 53" using D by (elim disjE) simp_all
    show "- 1074 \<le> j + int k" using j by simp
    show "\<bar>of_int D * (2::real) powi (j + int k)\<bar> \<le> float_max"
      using p0 p32 fm unfolding p by simp
  qed
  then have fo: "float_of ?p = Finite ?p" unfolding p .
  have dp: "d = ?p" unfolding d using p32 md by simp
  have kk: "\<not> 1024 \<le> k" using k4 by simp
  show pre: "backoff_delay k cfg = Inr (Finite d)"
    unfolding backoff_delay_def fo py_min_Finite d using eb kk by simp
  have pre': "backoff_delay k (cfg\<lparr>jitter := False\<rparr>) = Inr (Finite d)"
    unfolding backoff_delay_def using eb kk fo by (simp add: py_min_Finite d)
  let ?f = "real_of_int F / 2 ^ 53"
  have "(2::real) ^ 52 \<le> of_int F" using F(1) by (metis numeral_power_le_of_int_cancel_iff)
  then have f1: "1/2 \<le> ?f" by (simp add: field_simps)
  have "real_of_int F \<le> 2 ^ 53" using F(2) by (metis of_int_le_numeral_power_cancel_iff)
  then have f2: "?f \<le> 1" by (simp add: field_simps)
  have F0: "0 \<le> F"
  proof -
    have "(0::int) \<le> 2 ^ 52" by simp
    then show ?thesis using F(1) by linarith
  qed
  have "of_int D * (2::real) powi (j + int k) * (real_of_int F / 2 ^ 53)
          = of_int (D * F) * (2 powi (j + int k) / 2 powi 53)"
    by simp
  also have "(2::real) powi (j + int k) / 2 powi 53 = 2 powi (j + int k - 53)"
    by (simp add: power_int_diff)
  finally have df: "d * ?f = of_int (D * F) * 2 powi (j + int k - 53)"
    unfolding dp p .
  have "float_of (of_int (D * F) * 2 powi (j + int k - 53))
          = Finite (of_int (D * F) * 2 powi (j + int k - 53))"
  proof (rule float_of_exact)
    show "\<bar>D * F\<bar> \<le> 2 ^ 53" using D F(2) F0 by (elim disjE) simp_all
    show "- 1074 \<le> j + int k - 53" using j by simp
    have "0 \<le> d * ?f" unfolding dp using p0 f1 by simp
    moreover have "d * ?f \<le> 32 * 1"
      unfolding dp using p0 p32 f1 f2 by (intro mult_mono) simp_all
    ultimately show "\<bar>of_int (D * F) * (2::real) powi (j + int k - 53)\<bar> \<le> float_max"
      using fm unfolding df by simp
  qed
  then have mul: "py_mul (Finite d) (Finite ?f) = Finite (d * ?f)"
    unfolding py_mul.simps df .
  show "calculate_retry_delay_float k cfg r = Inr (Finite (d * ?f))"
    unfolding calculate_retry_delay_float_def pre jf using jt mul by simp
  show "calculate_retry_delay_float k (cfg\<lparr>jitter := False\<rparr>) r = Inr (Finite d)"
    unfolding calculate_retry_delay_float_def pre' by simp
qed

lemma backoff_delay_overflow:
  assumes "exponential_backoff cfg" and "1024 \<le> k"
  shows "backoff_delay k cfg = Inl OverflowError"
    and "calculate_retry_delay_float k cfg r = Inl OverflowError"
  using assms by (simp_all add: backoff_delay_def calculate_retry_delay_float_def)

text \<open>A float is a mantissa of at most 53 bits times a power of two.\<close>

lemma float_mantissa:
  assumes "fl x = x"
  obtains M e where "\<bar>M\<bar> \<le> 2 ^ 53" and "- 1074 \<le> e" and "x = of_int M * 2 powi e"
proof (cases "x = 0")
  case True
  then have "x = of_int 0 * 2 powi 0" by simp
  moreover have "\<bar>0::int\<bar> \<le> 2 ^ 53" "- 1074 \<le> (0::int)" by simp_all
  ultimately show ?thesis using that by blast
next
  case False
  let ?E = "float_exponent x"
  let ?y = "x / 2 powi ?E"
  let ?M = "round_half_even ?y"
  have x: "x = of_int ?M * 2 powi ?E"
    using assms False unfolding fl_def by simp
  have E: "- 1074 \<le> ?E" by (simp add: float_exponent_def)
  have pos: "0 < \<bar>x\<bar>" using False by simp
  have "\<lfloor>log 2 \<bar>x\<bar>\<rfloor> + 1 \<le> ?E + 53" by (simp add: float_exponent_def)
  then have "(2::real) powi (\<lfloor>log 2 \<bar>x\<bar>\<rfloor> + 1) \<le> 2 powi (?E + 53)"
    by (rule power_int_increasing) simp
  then have "\<bar>x\<bar> < 2 powi (?E + 53)"
    using floor_log2_bounds(2) [OF pos] by linarith
  also have "\<dots> = 2 powi ?E * 2 ^ 53" by (simp add: power_int_add)
  finally have "\<bar>x\<bar> / 2 powi ?E < 2 ^ 53" by (simp add: field_simps)
  then have y: "\<bar>?y\<bar> < 2 ^ 53" by simp
  have "?y < 2 ^ 53" using y by linarith
  then have "\<lfloor>?y\<rfloor> < 2 ^ 53" by (simp add: floor_less_iff)
  then have up: "?M \<le> 2 ^ 53" using round_half_even_bounds(2) [of ?y] by linarith
  have "- (2 ^ 53) < ?y" using y by linarith
  then have "real_of_int (- (2 ^ 53)) \<le> ?y" by simp
  then have "- (2 ^ 53) \<le> \<lfloor>?y\<rfloor>" by (simp only: le_floor_iff)
  then have dn: "- (2 ^ 53) \<le> ?M" using round_half_even_bounds(1) [of ?y] by linarith
  have "\<bar>?M\<bar> \<le> 2 ^ 53" using up dn by linarith
  then show ?thesis using E x that by blast
qed

text \<open>
  Scaling a float by a power of two is exact: for every policy whose base delay is a
  float, the delay before jitter is \<open>min (b * 2\<^sup>k) m\<close> as long as \<open>2\<^sup>k\<close> and the product
  are in the range of the floats.
\<close>

lemma backoff_delay_exact:
  assumes eb: "exponential_backoff cfg" and b: "fl (base_delay cfg) = base_delay cfg"
    and k: "k < 1024" and r: "\<bar>base_delay cfg * 2 ^ k\<bar> \<le> float_max"
  shows "backoff_delay k cfg = Inr (Finite (min (base_delay cfg * 2 ^ k) (max_delay cfg)))"
proof -
  obtain M e where M: "\<bar>M\<bar> \<le> 2 ^ 53" and e: "- 1074 \<le> e"
      and x: "base_delay cfg = of_int M * 2 powi e"
    using b by (rule float_mantissa)
  have p: "base_delay cfg * 2 ^ k = of_int M * 2 powi (e + int k)"
    unfolding x by (simp add: power_int_add power_int_of_nat)
  have "float_of (of_int M * 2 powi (e + int k)) = Finite (of_int M * 2 powi (e + int k))"
  proof (rule float_of_exact)
    show "\<bar>M\<bar> \<le> 2 ^ 53" by (rule M)
    show "- 1074 \<le> e + int k" using e by simp
    show "\<bar>of_int M * (2::real) powi (e + int k)\<bar> \<le> float_max" using r unfolding p .
  qed
  then have fo: "float_of (base_delay cfg * 2 ^ k) = Finite (base_delay cfg * 2 ^ k)"
    unfolding p .
  show ?thesis unfolding backoff_delay_def fo py_min_Finite using eb k by simp
qed

text \<open>
  On the attempts of the loop the exact arithmetic of \<open>calculate_retry_delay\<close> gives the
  floating-point delay, for the draw that the rounded jitter factor stands for.
\<close>

lemma calculate_retry_delay_float_real:
  assumes eb: "exponential_backoff cfg" and jt: "jitter cfg" and md: "32 \<le> max_delay cfg"
    and b: "base_delay cfg = of_int D * 2 powi j"
    and D: "D = 0 \<or> D = 1" and j: "- 1 \<le> j" "j \<le> 1"
    and k4: "k \<le> 4"
    and F: "2 ^ 52 \<le> F" "F \<le> 2 ^ 53"
    and jf: "jitter_factor r = Finite (of_int F / 2 ^ 53)"
  shows "calculate_retry_delay_float k cfg r
           = Inr (Finite (calculate_retry_delay k cfg (of_int F / 2 ^ 52 - 1)))"
proof -
  have "calculate_retry_delay k cfg (of_int F / 2 ^ 52 - 1)
          = min (base_delay cfg * 2 ^ k) (max_delay cfg) * (of_int F / 2 ^ 53)"
    using eb jt by (simp add: calculate_retry_delay_def field_simps)
  then show ?thesis
    using calculate_retry_delay_float_dyadic(2) [OF eb jt md b D j k4 F jf refl] by simp
qed


section \<open>Claims about the retry engine\<close>

text \<open>
  C2. For every error category, whatever the wrapped operation does, the random draws
  and the clock, a run of \<open>execute_with_retry\<close> invokes the operation at most as many
  times as the category's \<open>max_attempts\<close>, and every sleep of the run is directly followed
  by the invocation of a later attempt than the first: the run never sleeps after its
  last attempt.
\<close>

theorem execute_with_retry_attempts:
  "int (length (invocations (retry_trace (execute_with_retry oper rnd clock cat cmpt opname data h))))
     \<le> max_attempts (retry_config_for cat)
   \<and> sleeps_only_before_retries
        (retry_trace (execute_with_retry oper rnd clock cat cmpt opname data h))"
proof -
  let ?cfg = "retry_config_for cat"
  have "length (invocations (retry_trace (execute_with_retry oper rnd clock cat cmpt opname data h)))
          \<le> length [0..<nat (max_attempts ?cfg)]"
    unfolding execute_with_retry_def retry_trace_def Let_def by (rule retry_loop_invocations)
  moreover have "1 \<le> max_attempts ?cfg" using retry_config_for_bounds [of cat] by simp
  ultimately have "int (length (invocations (retry_trace
      (execute_with_retry oper rnd clock cat cmpt opname data h)))) \<le> max_attempts ?cfg"
    by simp
  moreover have "sleeps_only_before_retries
      (retry_trace (execute_with_retry oper rnd clock cat cmpt opname data h))"
    unfolding execute_with_retry_def retry_trace_def Let_def by (rule retry_loop_sleeps)
  ultimately show ?thesis by simp
qed

theorem execute_with_retry_attempts_witness:
  "int (length (invocations (retry_trace flaky_connect))) \<le> 5
   \<and> sleeps_only_before_retries (retry_trace flaky_connect)
   \<and> invocations (retry_trace flaky_connect) = [0, 1, 2]
   \<and> sleeps (retry_trace flaky_connect) = [3, 6]"
  using execute_with_retry_attempts [of "\<lambda>k. if k < 2 then Inl timeout_error else Inr (7::nat)"
          "\<lambda>k. 1/2" "\<lambda>k. 100" SFTP_CONNECTION "''SFTPManager''" "''connect''" "[]" fresh_handler]
        flaky_connect_run
  by (simp add: flaky_connect_def [symmetric] retry_config_for_def mk_RetryConfig_def
      RetryConfig_default_def)

text \<open>
  C9. Every \<open>ErrorContext\<close> that a run of \<open>execute_with_retry\<close> creates has a
  \<open>retry_count\<close> between 0 and the category's \<open>max_attempts\<close> minus one, and its
  \<open>max_retries\<close> is that bound.
\<close>

theorem execute_with_retry_retry_count:
  "list_all (\<lambda>c. 0 \<le> retry_count c \<and> retry_count c \<le> max_attempts (retry_config_for cat) - 1
                \<and> max_retries c = max_attempts (retry_config_for cat) - 1)
     (records (retry_trace (execute_with_retry oper rnd clock cat cmpt opname data h)))"
proof -
  let ?cfg = "retry_config_for cat"
  have "list_all (\<lambda>c. retry_count c \<in> int ` set [0..<nat (max_attempts ?cfg)]
                   \<and> max_retries c = max_attempts ?cfg - 1)
     (records (retry_trace (execute_with_retry oper rnd clock cat cmpt opname data h)))"
    unfolding execute_with_retry_def retry_trace_def Let_def by (rule retry_loop_records)
  then show ?thesis by (rule list.pred_mono_strong) auto
qed

theorem execute_with_retry_retry_count_witness:
  "list_all (\<lambda>c. 0 \<le> retry_count c \<and> retry_count c \<le> 4 \<and> max_retries c = 4)
     (records (retry_trace flaky_connect))
   \<and> map retry_count (records (retry_trace flaky_connect)) = [0, 1]"
proof -
  have "map fst (map (\<lambda>c. (retry_count c, max_retries c)) (records (retry_trace flaky_connect)))
          = map fst [(0, 4), (1, 4)]"
    using flaky_connect_run by simp
  then have "map retry_count (records (retry_trace flaky_connect)) = [0, 1]"
    by (simp add: comp_def)
  then show ?thesis
    using execute_with_retry_retry_count [of SFTP_CONNECTION
            "\<lambda>k. if k < 2 then Inl timeout_error else Inr (7::nat)"
            "\<lambda>k. 1/2" "\<lambda>k. 100" "''SFTPManager''" "''connect''" "[]" fresh_handler]
    by (simp add: flaky_connect_def [symmetric] retry_config_for_def mk_RetryConfig_def
        RetryConfig_default_def)
qed

text \<open>
  C4. Let the wrapped operation raise \<open>errs k\<close> at every attempt \<open>k\<close>, and let the random
  draws lie in \<open>[0, 1)\<close>, as \<open>random.random()\<close> gives them. Then \<open>execute_with_retry\<close>
  raises the error of the last attempt it made. Each record's recoverability flag is
  that of its attempt's error. When every error is recoverable it makes all \<open>n\<close>
  attempts of the category and raises the error of attempt \<open>n - 1\<close>; when attempt \<open>k\<close> is
  the first whose record is not recoverable it makes no attempt after \<open>k\<close> and raises
  the error of attempt \<open>k\<close>.
\<close>

theorem execute_with_retry_reraises:
  fixes errs :: "nat \<Rightarrow> py_exception"
  assumes rnd: "\<forall>k. 0 \<le> rnd k \<and> rnd k < 1"
    and run: "run = execute_with_retry (\<lambda>k. Inl (errs k) :: py_exception + 'r) rnd clock cat
                      cmpt opname data h"
    and n: "n = nat (max_attempts (retry_config_for cat))"
  shows "invocations (retry_trace run) \<noteq> []
       \<and> retry_outcome run = Inl (errs (last (invocations (retry_trace run))))
       \<and> map is_recoverable (records (retry_trace run))
           = map (\<lambda>k. is_recoverable_error (errs k) cat) (invocations (retry_trace run))
       \<and> ((\<forall>k<n. is_recoverable_error (errs k) cat) \<longrightarrow>
             invocations (retry_trace run) = [0..<n] \<and> retry_outcome run = Inl (errs (n - 1)))
       \<and> (\<forall>k<n. \<not> is_recoverable_error (errs k) cat
                   \<and> (\<forall>j<k. is_recoverable_error (errs j) cat) \<longrightarrow>
             invocations (retry_trace run) = [0..<Suc k] \<and> retry_outcome run = Inl (errs k))"
proof -
  let ?cfg = "retry_config_for cat"
  let ?P = "\<lambda>k. is_recoverable_error (errs k) cat"
  let ?span = "takeWhile ?P [0..<n] @ take 1 (dropWhile ?P [0..<n])"
  have b: "0 \<le> base_delay ?cfg" "0 \<le> max_delay ?cfg" "1 \<le> max_attempts ?cfg"
    using retry_config_for_bounds [of cat] by simp_all
  have r: "\<forall>k. 0 \<le> rnd k" using rnd by simp
  have npos: "0 < n" using b(3) n by simp
  then have ne: "[0..<n] \<noteq> []" by simp
  let ?loop = "retry_loop (\<lambda>k. Inl (errs k) :: py_exception + 'r) rnd clock ?cfg cat cmpt opname
                 data [0..<n] None h"
  have runeq: "run = ?loop"
    using run n by (simp add: execute_with_retry_def Let_def)
  have "invocations (snd (snd ?loop)) = ?span \<and> fst ?loop = Inl (errs (last ?span))"
    by (rule retry_loop_all_fail [OF b(1,2) r ne])
  then have inv: "invocations (retry_trace run) = ?span"
    and out: "retry_outcome run = Inl (errs (last ?span))"
    unfolding runeq retry_trace_def retry_outcome_def by simp_all
  have "map (\<lambda>c. (retry_count c, is_recoverable c)) (records (snd (snd ?loop)))
       = map (\<lambda>k. (int k, ?P k)) (invocations (snd (snd ?loop)))"
    by (rule retry_loop_all_fail_records [OF b(1,2) r])
  then have recs: "map (\<lambda>c. (retry_count c, is_recoverable c)) (records (retry_trace run))
       = map (\<lambda>k. (int k, ?P k)) (invocations (retry_trace run))"
    unfolding runeq retry_trace_def by simp
  have "map snd (map (\<lambda>c. (retry_count c, is_recoverable c)) (records (retry_trace run)))
       = map snd (map (\<lambda>k. (int k, ?P k)) (invocations (retry_trace run)))"
    using recs by simp
  then have c3: "map is_recoverable (records (retry_trace run))
                   = map ?P (invocations (retry_trace run))"
    by (simp add: comp_def)
  have c1: "invocations (retry_trace run) \<noteq> []" using inv span_nonempty [OF ne] by simp
  have c2: "retry_outcome run = Inl (errs (last (invocations (retry_trace run))))"
    using inv out by simp
  have c4: "(\<forall>k<n. ?P k) \<longrightarrow>
             invocations (retry_trace run) = [0..<n] \<and> retry_outcome run = Inl (errs (n - 1))"
  proof
    assume a: "\<forall>k<n. ?P k"
    have "?span = [0..<n]" using a by (rule span_upt_all)
    moreover have "last [0..<n] = n - 1" using npos by (simp add: last_upt)
    ultimately show "invocations (retry_trace run) = [0..<n]
        \<and> retry_outcome run = Inl (errs (n - 1))"
      using inv out by simp
  qed
  have c5: "\<forall>k<n. \<not> ?P k \<and> (\<forall>j<k. ?P j) \<longrightarrow>
             invocations (retry_trace run) = [0..<Suc k] \<and> retry_outcome run = Inl (errs k)"
  proof (intro allI impI)
    fix k assume k: "k < n" and a: "\<not> ?P k \<and> (\<forall>j<k. ?P j)"
    have "?span = [0..<Suc k]" using span_upt_first [of k n ?P] k a by blast
    then show "invocations (retry_trace run) = [0..<Suc k] \<and> retry_outcome run = Inl (errs k)"
      using inv out by simp
  qed
  show ?thesis using c1 c2 c3 c4 c5 by blast
qed

theorem execute_with_retry_reraises_witness:
  "invocations (retry_trace (execute_with_retry (\<lambda>k. Inl timeout_error :: py_exception + nat)
      (\<lambda>k. 1/2) (\<lambda>k. 100) FILE_PROCESSING ''CSVGenerator'' ''write'' [] fresh_handler)) = [0, 1]
   \<and> retry_outcome (execute_with_retry (\<lambda>k. Inl timeout_error :: py_exception + nat)
      (\<lambda>k. 1/2) (\<lambda>k. 100) FILE_PROCESSING ''CSVGenerator'' ''write'' [] fresh_handler)
       = Inl timeout_error
   \<and> invocations (retry_trace (execute_with_retry (\<lambda>k. Inl denied_error :: py_exception + nat)
      (\<lambda>k. 1/2) (\<lambda>k. 100) SFTP_CONNECTION ''SFTPManager'' ''connect'' [] fresh_handler)) = [0]
   \<and> retry_outcome (execute_with_retry (\<lambda>k. Inl denied_error :: py_exception + nat)
      (\<lambda>k. 1/2) (\<lambda>k. 100) SFTP_CONNECTION ''SFTPManager'' ''connect'' [] fresh_handler)
       = Inl denied_error"
proof -
  let ?run1 = "execute_with_retry (\<lambda>k. Inl timeout_error :: py_exception + nat)
      (\<lambda>k. 1/2) (\<lambda>k. 100) FILE_PROCESSING ''CSVGenerator'' ''write'' [] fresh_handler"
  let ?run2 = "execute_with_retry (\<lambda>k. Inl denied_error :: py_exception + nat)
      (\<lambda>k. 1/2) (\<lambda>k. 100) SFTP_CONNECTION ''SFTPManager'' ''connect'' [] fresh_handler"
  have rnd: "\<forall>k::nat. (0::real) \<le> 1/2 \<and> (1/2::real) < 1" by simp
  have n1: "2 = nat (max_attempts (retry_config_for FILE_PROCESSING))"
    by (simp add: retry_config_for_def mk_RetryConfig_def RetryConfig_default_def)
  have n2: "5 = nat (max_attempts (retry_config_for SFTP_CONNECTION))"
    by (simp add: retry_config_for_def mk_RetryConfig_def RetryConfig_default_def)
  have "(\<forall>k<2::nat. is_recoverable_error timeout_error FILE_PROCESSING) \<longrightarrow>
          invocations (retry_trace ?run1) = [0..<2] \<and> retry_outcome ?run1 = Inl timeout_error"
    using execute_with_retry_reraises [OF rnd refl n1, of "\<lambda>k. timeout_error" "\<lambda>k. 100"
            "''CSVGenerator''" "''write''" "[]" fresh_handler] by auto
  then have r1: "invocations (retry_trace ?run1) = [0, 1] \<and> retry_outcome ?run1 = Inl timeout_error"
    using timeout_error_recoverable by (simp add: upt_rec)
  have "\<forall>k<5::nat. \<not> is_recoverable_error denied_error SFTP_CONNECTION
            \<and> (\<forall>j<k. is_recoverable_error denied_error SFTP_CONNECTION) \<longrightarrow>
          invocations (retry_trace ?run2) = [0..<Suc k] \<and> retry_outcome ?run2 = Inl denied_error"
    using execute_with_retry_reraises [OF rnd refl n2, of "\<lambda>k. denied_error" "\<lambda>k. 100"
            "''SFTPManager''" "''connect''" "[]" fresh_handler] by auto
  then have "(0::nat) < 5 \<longrightarrow> \<not> is_recoverable_error denied_error SFTP_CONNECTION
            \<and> (\<forall>j<0::nat. is_recoverable_error denied_error SFTP_CONNECTION) \<longrightarrow>
          invocations (retry_trace ?run2) = [0..<Suc 0] \<and> retry_outcome ?run2 = Inl denied_error"
    by blast
  then have r2: "invocations (retry_trace ?run2) = [0] \<and> retry_outcome ?run2 = Inl denied_error"
    using denied_error_not_recoverable by simp
  show ?thesis using r1 r2 by simp
qed



text \<open>
  C5. The recoverability flag of the record that \<open>handle_error\<close> makes is false exactly
  when the category is \<open>CONFIGURATION\<close> or \<open>VALIDATION\<close>, or the name of the exception's
  type is one of the eight listed, or the lowercased message contains one of the seven
  listed substrings. In every other case the flag is true.
\<close>

theorem handle_error_recoverability:
  "(\<not> is_recoverable (fst (handle_error now e cat sev cmpt opn data rc mr h))) =
     (cat \<in> {CONFIGURATION, VALIDATION}
      \<or> type_name e \<in> {''FileNotFoundError'', ''PermissionError'', ''AuthenticationError'',
            ''SMTPAuthenticationError'', ''SMTPRecipientsRefused'', ''ValueError'',
            ''TypeError'', ''AttributeError''}
      \<or> (\<exists>p \<in> {''authentication failed'', ''invalid credentials'', ''permission denied'',
            ''file not found'', ''invalid format'', ''malformed'', ''corrupt''}.
            \<exists>pre suf. lower (str_of e) = pre @ p @ suf))"
  unfolding handle_error_context by (simp only: ErrorContext.simps is_recoverable_error_iff)

theorem handle_error_recoverability_witness:
  "\<not> is_recoverable (fst (handle_error 100 denied_error SFTP_CONNECTION HIGH ''SFTPManager''
        ''connect'' [] 0 4 fresh_handler))
   \<and> (\<exists>pre suf. lower (str_of denied_error) = pre @ ''permission denied'' @ suf)
   \<and> is_recoverable (fst (handle_error 100 timeout_error FILE_PROCESSING LOW ''CSVGenerator''
        ''write'' [] 0 1 fresh_handler))"
proof -
  have d: "str_contains ''permission denied'' (lower (str_of denied_error))"
    by (simp add: denied_error_def lower_def lower_char_def ascii_uppercase_def ascii_lowercase_def)
  then have ex: "\<exists>pre suf. lower (str_of denied_error) = pre @ ''permission denied'' @ suf"
    by (simp only: str_contains_iff)
  have t: "\<not> (\<exists>p \<in> {''authentication failed'', ''invalid credentials'', ''permission denied'',
            ''file not found'', ''invalid format'', ''malformed'', ''corrupt''}.
            \<exists>pre suf. lower (str_of timeout_error) = pre @ p @ suf)"
    unfolding str_contains_iff [symmetric]
    by (simp add: timeout_error_def lower_def lower_char_def ascii_uppercase_def ascii_lowercase_def)
  have "\<not> is_recoverable (fst (handle_error 100 denied_error SFTP_CONNECTION HIGH ''SFTPManager''
        ''connect'' [] 0 4 fresh_handler))"
    using handle_error_recoverability [of 100 denied_error SFTP_CONNECTION HIGH "''SFTPManager''"
        "''connect''" "[]" 0 4 fresh_handler] ex by blast
  moreover have "is_recoverable (fst (handle_error 100 timeout_error FILE_PROCESSING LOW
        ''CSVGenerator'' ''write'' [] 0 1 fresh_handler))"
    using handle_error_recoverability [of 100 timeout_error FILE_PROCESSING LOW "''CSVGenerator''"
        "''write''" "[]" 0 1 fresh_handler] t
    by (simp add: timeout_error_def)
  ultimately show ?thesis using ex by simp
qed

section \<open>Claims about the cleanup of old records\<close>




section \<open>Claims about the scheduler\<close>

lemma sched_step_config: "config (sched_step c s) = config s"
  by (cases c) (simp_all add: start_def stop_def)

lemma fold_sched_step_config: "config (fold sched_step calls s) = config s"
  by (induction calls arbitrary: s) (simp_all add: sched_step_config)

lemma Scheduler_init_config: "Scheduler_init env cfg = Inr s \<Longrightarrow> config s = cfg"
  by (auto simp: Scheduler_init_def split: option.splits)

text \<open>In cron mode the method does answer a time.\<close>

lemma get_next_run_time_cron_mode:
  "get_next_run_time lenient_env
     \<lparr>config = daily_cron_config, running = True, thread = True, stop_event = False\<rparr>
   = Some (timedelta_days 739000 + 60000000)"
  by (simp add: get_next_run_time_def cron_mode_def cron_expr_def daily_cron_config_def
      lenient_env_def)

text \<open>
  C10. A scheduler built from a configuration with no cron expression (\<open>None\<close> or the empty
  string) answers \<open>None\<close> to \<open>get_next_run_time\<close>, after any sequence of \<open>start\<close> and \<open>stop\<close>
  calls and whatever the libraries and the clock say; and a scheduler that answers a
  time is in cron mode.
\<close>

theorem get_next_run_time_interval_mode:
  assumes "Scheduler_init env0 cfg = Inr s0"
    and "poll_cron cfg = None \<or> poll_cron cfg = Some []"
  shows "get_next_run_time env (fold sched_step calls s0) = None
       \<and> (\<forall>s t. get_next_run_time env s = Some t \<longrightarrow> cron_mode (config s))"
proof -
  have "config (fold sched_step calls s0) = cfg"
    using assms(1) by (simp add: fold_sched_step_config Scheduler_init_config)
  moreover have "\<not> cron_mode cfg" using assms(2) by (auto simp: cron_mode_def)
  ultimately have "get_next_run_time env (fold sched_step calls s0) = None"
    by (simp add: get_next_run_time_def)
  moreover have "\<forall>s t. get_next_run_time env s = Some t \<longrightarrow> cron_mode (config s)"
    by (auto simp: get_next_run_time_def split: if_splits)
  ultimately show ?thesis by simp
qed

theorem get_next_run_time_interval_mode_witness:
  "Scheduler_init lenient_env interval_config
     = Inr \<lparr>config = interval_config, running = False, thread = False, stop_event = False\<rparr>
   \<and> get_next_run_time lenient_env
        (fold sched_step [Start, Stop, Start]
           \<lparr>config = interval_config, running = False, thread = False, stop_event = False\<rparr>) = None
   \<and> get_next_run_time lenient_env
        (fold sched_step [Start]
           \<lparr>config = empty_cron_config, running = False, thread = False, stop_event = False\<rparr>) = None"
proof -
  have i1: "Scheduler_init lenient_env interval_config
     = Inr \<lparr>config = interval_config, running = False, thread = False, stop_event = False\<rparr>"
    by (simp add: Scheduler_init_def validate_config_def cron_mode_def interval_config_def)
  have i2: "Scheduler_init lenient_env empty_cron_config
     = Inr \<lparr>config = empty_cron_config, running = False, thread = False, stop_event = False\<rparr>"
    by (simp add: Scheduler_init_def validate_config_def cron_mode_def empty_cron_config_def)
  have p1: "poll_cron interval_config = None \<or> poll_cron interval_config = Some []"
    by (simp add: interval_config_def)
  have p2: "poll_cron empty_cron_config = None \<or> poll_cron empty_cron_config = Some []"
    by (simp add: empty_cron_config_def)
  show ?thesis
    using get_next_run_time_interval_mode [OF i1 p1, of lenient_env "[Start, Stop, Start]"]
          get_next_run_time_interval_mode [OF i2 p2, of lenient_env "[Start]"] i1
    by simp
qed

section \<open>Claims about the parallel executor\<close>



section \<open>Claims about the publish phase\<close>



section \<open>Claims about the cycle\<close>

text \<open>
  C6. When the date folder is created and the scan succeeds but finds no document
  (no file is left by the filter on \<open>.doc\<close> and \<open>.docx\<close>), \<open>run_processing_cycle\<close> returns
  statistics without raising: no download, no document, no record, the upload status
  \<open>N/A - No files\<close> and \<open>email_sent\<close> false; and the cycle makes its first two steps only.
\<close>

theorem empty_scan_gives_empty_stats:
  assumes "create_date_folder env = Inr folder"
    and "ftps_scan env = Inr found"
    and "sum_list (map (\<lambda>(f, files). length (filter_document_files files)) found) = 0"
  shows "\<exists>stats. run_processing_cycle env = (Inr stats, [Step_create_date_folder, Step_scan])
           \<and> date_folder stats = folder
           \<and> files_downloaded stats = [] \<and> documents_processed stats = 0
           \<and> records_extracted stats = 0 \<and> csv_filename stats = []
           \<and> upload_status stats = ''N/A - No files'' \<and> log_filename stats = []
           \<and> email_sent stats = False \<and> errors stats = []"
proof -
  let ?scan = "map (\<lambda>(folder, files). (folder, filter_document_files files)) found"
  have t: "sum_list (map (\<lambda>(f, files). length files) ?scan) = 0"
    using assms(3) by (simp only: scan_total)
  have sc: "scan_type_folders env = Inr ?scan"
    using assms(2) by (simp add: scan_type_folders_def)
  have "run_processing_cycle env
          = (Inr (build_empty_stats folder (now_start env) (now_end env)),
             [Step_create_date_folder, Step_scan])"
    using t by (simp add: run_processing_cycle_def assms(1) sc Let_def)
  then show ?thesis by (simp add: build_empty_stats_def)
qed

theorem empty_scan_gives_empty_stats_witness:
  "filter_document_files [readme] = []
   \<and> (\<exists>stats. run_processing_cycle quiet_env = (Inr stats, [Step_create_date_folder, Step_scan])
           \<and> files_downloaded stats = [] \<and> records_extracted stats = 0
           \<and> upload_status stats = ''N/A - No files'' \<and> email_sent stats = False)"
proof -
  have f: "filter_document_files [readme] = []"
    by (simp add: filter_document_files_def readme_def str_endswith_def lower_def lower_char_def
        ascii_uppercase_def ascii_lowercase_def)
  have c: "create_date_folder quiet_env = Inr ''2025-11-24''" by (simp add: quiet_env_def)
  have s: "ftps_scan quiet_env = Inr [(''type3'', [readme]), (''type6'', [])]"
    by (simp add: quiet_env_def)
  have z: "sum_list (map (\<lambda>(f, files). length (filter_document_files files))
             [(''type3'', [readme]), (''type6'', [])]) = 0"
    using f by (simp add: filter_document_files_def)
  show ?thesis using empty_scan_gives_empty_stats [OF c s z] f by auto
qed

end
